theory Spec2Isabelle
  imports Complex_Main "HOL-Library.AList"
begin

section \<open>The peer bootstrap server of app.js\<close>

text \<open>
  The server keeps three tables and one counter (\<open>peerRecord\<close>, \<open>clientRecord\<close>,
  \<open>banList\<close>, \<open>globalRequestCount\<close>) and reacts to events of the Node.js event loop:
  a new connection, a data chunk or an idle timeout on an open socket, the end of the
  artificial delay or of the geolocation request of one data handler, and the two
  interval timers.  Each reaction runs to completion before the next one starts, so the
  program is a step function on a state.  What a reaction does to its socket
  (\<open>sock.write\<close>, \<open>sock.end\<close>) is returned as the list of calls it made.

  Conventions of the model:
  \<^item> \<open>Date.now()\<close> is an \<open>int\<close> of milliseconds, given with the event that reads it;
  \<^item> a latitude or longitude is a \<open>real\<close>; the program only tests coordinates against
    zero, except in \<open>distance\<close>, which is written over the reals as the source writes it
    over doubles (rounding is outside the model, and no claim below is settled by the
    order of a returned peer list);
  \<^item> an object used as a dictionary is a map when the program only looks keys up and an
    association list in insertion order when the program enumerates it; a remote
    address is an IP address, never the name of a property that every object inherits;
  \<^item> a string is a list of characters, one for each code unit that \<open>length\<close> counts;
  \<^item> what the JSON parser and the geolocation provider return comes with the event that
    resumes the handler waiting for it;
  \<^item> \<open>appendLog\<close> only writes log files and is left out; the \<open>timestamp\<close> field of a
    response is left out as well;
  \<^item> \<open>globalRequestCount\<close> is a \<open>nat\<close>: the program only increments it, resets it and
    compares it with \<open>MAX_CONN_PER_SECOND\<close>.
\<close>

subsection \<open>Status codes and operational constants\<close>

type_synonym status = "nat \<times> string"

definition SUCCESS_REGISTER :: status where
  "SUCCESS_REGISTER = (1000, ''Registration successful'')"
definition SUCCESS_UNREGISTER :: status where
  "SUCCESS_UNREGISTER = (1001, ''Unregistered successfully'')"
definition SUCCESS_HEARTBEAT :: status where
  "SUCCESS_HEARTBEAT = (1002, ''Heartbeat acknowledged'')"
definition ERROR_UNKNOWN_ACTION :: status where
  "ERROR_UNKNOWN_ACTION = (2000, ''Unknown action'')"
definition ERROR_INVALID_JSON :: status where
  "ERROR_INVALID_JSON = (2001, ''Invalid JSON'')"
definition ERROR_RATE_LIMIT :: status where
  "ERROR_RATE_LIMIT = (2002, ''Too many requests, slow down.'')"
definition ERROR_GLOBAL_DOS :: status where
  "ERROR_GLOBAL_DOS = (2003, ''Global rate limit exceeded'')"
definition ERROR_PAYLOAD_TOO_LARGE :: status where
  "ERROR_PAYLOAD_TOO_LARGE = (2004, ''Payload too large'')"
definition ERROR_IDLE_TIMEOUT :: status where
  "ERROR_IDLE_TIMEOUT = (2005, ''Idle timeout'')"
definition ERROR_GEO_LOOKUP_FAILED :: status where
  "ERROR_GEO_LOOKUP_FAILED = (2006, ''Geolocation lookup failed'')"

definition RATE_LIMIT :: nat where "RATE_LIMIT = 5"
definition WINDOW_MS :: int where "WINDOW_MS = 60 * 1000"
definition MAX_CONN_PER_SECOND :: nat where "MAX_CONN_PER_SECOND = 100"
definition RESPONSE_PEER_LIMIT :: nat where "RESPONSE_PEER_LIMIT = 20"
definition PEER_TIMEOUT_MS :: int where "PEER_TIMEOUT_MS = 5 * 60 * 1000"

subsection \<open>Data\<close>

text \<open>
  \<open>peerRecord[ip] = { geo: {latitude, longitude}, firstSeen, lastSeen }\<close>.  An entry of
  a returned peer list is \<open>{ ip: k, ...v.geo }\<close>: the coordinate extended by the address.
\<close>

record geo =
  latitude :: real
  longitude :: real

record peer_info =
  geo :: geo
  firstSeen :: int
  lastSeen :: int

record peer_entry = geo +
  ip :: string

text \<open>
  \<open>buildResponse(statusObj, extraBody)\<close>: the only extra body in the program is
  \<open>{ yourIP, peers }\<close> of a successful register.
\<close>

record response =
  statusCode :: nat
  message :: string
  yourIP :: "string option"
  peers :: "peer_entry list option"

definition buildResponse :: "status \<Rightarrow> (string \<times> peer_entry list) option \<Rightarrow> response" where
  "buildResponse statusObj extraBody =
     \<lparr>statusCode = fst statusObj, message = snd statusObj,
      yourIP = map_option fst extraBody, peers = map_option snd extraBody\<rparr>"

datatype sock_call = Write response | End

record server =
  peerRecord :: "(string \<times> peer_info) list"
  clientRecord :: "string \<rightharpoonup> int list"
  banList :: "string \<rightharpoonup> int"
  globalRequestCount :: nat

subsection \<open>Geolocation\<close>

definition startsWith :: "string \<Rightarrow> string \<Rightarrow> bool" where
  "startsWith s p = (take (length p) s = p)"

definition isPrivateIP :: "string \<Rightarrow> bool" where
  "isPrivateIP a =
     (startsWith a ''127.'' \<or> startsWith a ''192.168.'' \<or> startsWith a ''10.'' \<or>
      startsWith a ''172.'' \<or> a = ''::1'')"

text \<open>
  What \<open>axios.get\<close> gives \<open>getGeo\<close>: it throws (network error, timeout after 3 s, error
  status), or it returns a body whose \<open>latitude\<close> and \<open>longitude\<close> fields are numbers
  or are absent.  The reply is an input of the model; \<open>getGeo\<close> does not read it for a
  private address.  A number is truthy when it is not zero.
\<close>

datatype reply = Threw | ResData "real option" "real option"

definition getGeo :: "string \<Rightarrow> reply \<Rightarrow> geo option" where
  "getGeo a r =
     (if isPrivateIP a then Some \<lparr>latitude = 0, longitude = 0\<rparr>
      else (case r of
              ResData (Some la) (Some lo) \<Rightarrow>
                if la \<noteq> 0 \<and> lo \<noteq> 0 then Some \<lparr>latitude = la, longitude = lo\<rparr> else None
            | _ \<Rightarrow> None))"

subsection \<open>Haversine distance and the ranking of peers\<close>

definition toRad :: "real \<Rightarrow> real" where
  "toRad x = (x * pi) / 180"

text \<open>\<open>Math.atan2(y, x)\<close> on real arguments.\<close>

definition atan2 :: "real \<Rightarrow> real \<Rightarrow> real" where
  "atan2 y x =
     (if 0 < x then arctan (y / x)
      else if x < 0 then (if 0 \<le> y then arctan (y / x) + pi else arctan (y / x) - pi)
      else if 0 < y then pi / 2
      else if y < 0 then - (pi / 2)
      else 0)"

definition distance :: "'a geo_scheme \<Rightarrow> 'b geo_scheme \<Rightarrow> real" where
  "distance a b =
     (let R = 6371;
          dLat = toRad (latitude b - latitude a);
          dLon = toRad (longitude b - longitude a);
          aa = (sin (dLat / 2))\<^sup>2 +
               cos (toRad (latitude a)) * cos (toRad (latitude b)) * (sin (dLon / 2))\<^sup>2;
          c = 2 * atan2 (sqrt aa) (sqrt (1 - aa))
      in R * c)"

text \<open>
  \<open>Array.prototype.sort(compare)\<close> is a stable sort; it is modelled by the stable
  insertion sort that places an element before the first one it does not compare
  greater than.
\<close>

fun insert_cmp :: "('a \<Rightarrow> 'a \<Rightarrow> real) \<Rightarrow> 'a \<Rightarrow> 'a list \<Rightarrow> 'a list" where
  "insert_cmp c x [] = [x]"
| "insert_cmp c x (y # ys) = (if c x y \<le> 0 then x # y # ys else y # insert_cmp c x ys)"

definition sort_cmp :: "('a \<Rightarrow> 'a \<Rightarrow> real) \<Rightarrow> 'a list \<Rightarrow> 'a list" where
  "sort_cmp c xs = foldr (insert_cmp c) xs []"

text \<open>Lines 310 to 320: the peer list sent to a registrant whose coordinate is \<open>g\<close>.\<close>

definition entries :: "(string \<times> peer_info) list \<Rightarrow> peer_entry list" where
  "entries pr =
     filter (\<lambda>v. latitude v \<noteq> 0 \<and> longitude v \<noteq> 0)
       (map (\<lambda>(k, v). \<lparr>latitude = latitude (geo v), longitude = longitude (geo v),
                         ip = k\<rparr>) pr)"

definition sendPeers :: "geo \<Rightarrow> (string \<times> peer_info) list \<Rightarrow> peer_entry list" where
  "sendPeers g pr =
     take RESPONSE_PEER_LIMIT (sort_cmp (\<lambda>a b. distance a g - distance b g) (entries pr))"

subsection \<open>The guard chain of a new connection\<close>

text \<open>
  Lines 206 to 250.  \<open>Dropped\<close>: \<open>sock.end()\<close> with nothing written.  \<open>Refused r\<close>:
  \<open>sock.write(r); sock.end()\<close> and no handler installed.  \<open>Admitted a\<close>: the handlers
  are installed with \<open>ip = a\<close>.  \<open>sock.remoteAddress\<close> is a string or undefined
  (\<open>None\<close>); \<open>!ip\<close> holds for undefined and for the empty string.  A missing key of
  \<open>banList\<close> reads as undefined, and \<open>undefined > now\<close> is false.
\<close>

datatype outcome = Dropped | Refused response | Admitted string

definition connection :: "string option \<Rightarrow> int \<Rightarrow> server \<Rightarrow> outcome \<times> server" where
  "connection remoteAddress now s =
     (case remoteAddress of
        None \<Rightarrow> (Dropped, s)
      | Some a \<Rightarrow>
          if a = [] \<or> (case banList s a of None \<Rightarrow> False | Some e \<Rightarrow> e > now)
          then (Dropped, s)
          else
            let s1 = s\<lparr>globalRequestCount := globalRequestCount s + 1\<rparr> in
            if globalRequestCount s1 > MAX_CONN_PER_SECOND
            then (Refused (buildResponse ERROR_GLOBAL_DOS None), s1)
            else
              let win = filter (\<lambda>ts. now - ts < WINDOW_MS)
                          (case clientRecord s1 a of None \<Rightarrow> [] | Some tss \<Rightarrow> tss) in
              if length win \<ge> RATE_LIMIT
              then (Refused (buildResponse ERROR_RATE_LIMIT None),
                    s1\<lparr>clientRecord := (clientRecord s1)(a \<mapsto> win @ [now])\<rparr>)
              else
                let s2 = s1\<lparr>clientRecord := (clientRecord s1)(a \<mapsto> win @ [now])\<rparr> in
                if length (win @ [now]) > RATE_LIMIT * 3
                then (Admitted a, s2\<lparr>banList := (banList s2)(a \<mapsto> now + WINDOW_MS * 10)\<rparr>)
                else (Admitted a, s2))"

subsection \<open>The handlers of an admitted connection\<close>

text \<open>
  The closure of an admitted connection holds \<open>ip\<close>, \<open>now\<close> (the time the connection
  was accepted) and \<open>dataBuffer\<close>.  Every \<open>data\<close> event starts one run of the async
  handler; a run waits for the artificial delay, then possibly for the geolocation
  request, and is then finished.
\<close>

datatype hstate = AwaitDelay | AwaitGeo | Finished

record session =
  s_ip :: string
  s_now :: int
  dataBuffer :: string
  handlers :: "hstate list"

text \<open>Lines 255 to 262.\<close>

definition on_timeout :: "sock_call list" where
  "on_timeout = [Write (buildResponse ERROR_IDLE_TIMEOUT None), End]"

text \<open>Lines 267 to 282: the handler up to the \<open>await\<close> of the delay.\<close>

definition on_data :: "string \<Rightarrow> session \<Rightarrow> session \<times> sock_call list" where
  "on_data chunk ss =
     (let buf = dataBuffer ss @ chunk in
      if length buf > 2048
      then (ss\<lparr>dataBuffer := buf, handlers := handlers ss @ [Finished]\<rparr>,
            [Write (buildResponse ERROR_PAYLOAD_TOO_LARGE None), End])
      else (ss\<lparr>dataBuffer := buf, handlers := handlers ss @ [AwaitDelay]\<rparr>, []))"

text \<open>
  Lines 293 to 326 and the \<open>finally\<close> of line 357, once \<open>geo\<close> is known.  The failure
  branch ends the socket, returns, and the \<open>finally\<close> block ends it again.
\<close>

definition register_with ::
    "string \<Rightarrow> int \<Rightarrow> geo option \<Rightarrow> server \<Rightarrow> server \<times> sock_call list" where
  "register_with a now g s =
     (case g of
        None \<Rightarrow> (s, [Write (buildResponse ERROR_GEO_LOOKUP_FAILED None), End, End])
      | Some gv \<Rightarrow>
          let s' = s\<lparr>peerRecord :=
                      AList.update a \<lparr>geo = gv, firstSeen = now, lastSeen = now\<rparr> (peerRecord s)\<rparr>
          in (s', [Write (buildResponse SUCCESS_REGISTER (Some (a, sendPeers gv (peerRecord s')))),
                   End]))"

text \<open>
  What \<open>JSON.parse(dataBuffer.trim())\<close> followed by the read of \<open>msg.action\<close> gives:
  an exception (a syntax error, or the value \<open>null\<close>), an \<open>action\<close> that is a string, or
  anything else.  It is an input of the model, given with the event that resumes the
  handler.
\<close>

datatype parsed = Invalid | NoAction | Action string

text \<open>
  Lines 284 to 358, from the end of the delay to the next \<open>await\<close> or to the end.  A
  register of an address that has a record goes on with the stored coordinate; any
  other register waits for \<open>getGeo\<close>.
\<close>

definition delay_elapsed ::
    "parsed \<Rightarrow> string \<Rightarrow> int \<Rightarrow> server \<Rightarrow> server \<times> sock_call list \<times> hstate" where
  "delay_elapsed p a now s =
     (case p of
        Invalid \<Rightarrow> (s, [Write (buildResponse ERROR_INVALID_JSON None), End], Finished)
      | NoAction \<Rightarrow> (s, [Write (buildResponse ERROR_UNKNOWN_ACTION None), End], Finished)
      | Action act \<Rightarrow>
          if act = ''register'' then
            (case map_of (peerRecord s) a of
               Some info \<Rightarrow>
                 (fst (register_with a now (Some (geo info)) s),
                  snd (register_with a now (Some (geo info)) s), Finished)
             | None \<Rightarrow> (s, [], AwaitGeo))
          else if act = ''unregister'' then
            (s\<lparr>peerRecord := AList.delete a (peerRecord s)\<rparr>,
             [Write (buildResponse SUCCESS_UNREGISTER None), End], Finished)
          else if act = ''heartbeat'' then
            ((case map_of (peerRecord s) a of
                Some info \<Rightarrow>
                  s\<lparr>peerRecord := AList.update a (info\<lparr>lastSeen := now\<rparr>) (peerRecord s)\<rparr>
              | None \<Rightarrow> s),
             [Write (buildResponse SUCCESS_HEARTBEAT None), End], Finished)
          else (s, [Write (buildResponse ERROR_UNKNOWN_ACTION None), End], Finished))"

text \<open>Line 291 after \<open>await getGeo(ip)\<close>, then lines 293 to 326.\<close>

definition geo_returned ::
    "reply \<Rightarrow> string \<Rightarrow> int \<Rightarrow> server \<Rightarrow> server \<times> sock_call list" where
  "geo_returned r a now s = register_with a now (getGeo a r) s"

subsection \<open>The stale-peer sweep\<close>

text \<open>
  Lines 190 to 201: the loop runs over the snapshot \<open>Object.entries(peerRecord)\<close> and
  deletes from the live object.
\<close>

fun sweep_loop :: "int \<Rightarrow> (string \<times> peer_info) list \<Rightarrow> (string \<times> peer_info) list
    \<Rightarrow> (string \<times> peer_info) list" where
  "sweep_loop now [] pr = pr"
| "sweep_loop now ((k, info) # es) pr =
     sweep_loop now es (if now - lastSeen info > PEER_TIMEOUT_MS then AList.delete k pr else pr)"

definition sweep :: "int \<Rightarrow> server \<Rightarrow> server" where
  "sweep now s = s\<lparr>peerRecord := sweep_loop now (peerRecord s) (peerRecord s)\<rparr>"

subsection \<open>The event loop\<close>

record world =
  srv :: server
  sessions :: "session list"

datatype event =
    Connection "string option" int
  | ResetCounter
  | Sweep int
  | SockTimeout nat
  | SockData nat string
  | DelayElapsed nat nat parsed
  | GeoReturned nat nat reply

text \<open>
  \<open>Connection a now\<close>: a socket with remote address \<open>a\<close> is accepted at time \<open>now\<close>.
  \<open>ResetCounter\<close> and \<open>Sweep now\<close>: the interval timers of lines 128 and 190.
  \<open>SockTimeout n\<close> and \<open>SockData n chunk\<close>: the events of the socket of the \<open>n\<close>-th
  admitted connection.  \<open>DelayElapsed n h p\<close>: run \<open>h\<close> of the data handler of that
  connection resumes after the delay and parses the buffer to \<open>p\<close>.
  \<open>GeoReturned n h r\<close>: that run resumes after \<open>getGeo\<close>, the provider having answered
  \<open>r\<close>.  An event for a connection or a run that does not exist, or for a run that is
  not waiting for it, changes nothing.  The source installs no flag that would disable
  a handler after a response, so no other condition restricts an event.
\<close>

definition init :: world where
  "init = \<lparr>srv = \<lparr>peerRecord = [], clientRecord = Map.empty, banList = Map.empty,
                  globalRequestCount = 0\<rparr>,
           sessions = []\<rparr>"

text \<open>Run \<open>h\<close> of the data handler of connection \<open>n\<close> exists and is in state \<open>st\<close>.\<close>

definition awaits :: "world \<Rightarrow> nat \<Rightarrow> nat \<Rightarrow> hstate \<Rightarrow> bool" where
  "awaits w n h st =
     (n < length (sessions w) \<and> h < length (handlers (sessions w ! n)) \<and>
      handlers (sessions w ! n) ! h = st)"

fun step :: "event \<Rightarrow> world \<Rightarrow> world \<times> sock_call list" where
  "step (Connection remoteAddress now) w =
     (case connection remoteAddress now (srv w) of
        (Dropped, s') \<Rightarrow> (w\<lparr>srv := s'\<rparr>, [End])
      | (Refused r, s') \<Rightarrow> (w\<lparr>srv := s'\<rparr>, [Write r, End])
      | (Admitted a, s') \<Rightarrow>
          (\<lparr>srv = s',
            sessions = sessions w @ [\<lparr>s_ip = a, s_now = now, dataBuffer = [], handlers = []\<rparr>]\<rparr>,
           []))"
| "step ResetCounter w = (w\<lparr>srv := (srv w)\<lparr>globalRequestCount := 0\<rparr>\<rparr>, [])"
| "step (Sweep now) w = (w\<lparr>srv := sweep now (srv w)\<rparr>, [])"
| "step (SockTimeout n) w = (if n < length (sessions w) then (w, on_timeout) else (w, []))"
| "step (SockData n chunk) w =
     (if n < length (sessions w)
      then (w\<lparr>sessions := (sessions w)[n := fst (on_data chunk (sessions w ! n))]\<rparr>,
            snd (on_data chunk (sessions w ! n)))
      else (w, []))"
| "step (DelayElapsed n h p) w =
     (if awaits w n h AwaitDelay
      then
        (let ss = sessions w ! n;
             (s', calls, st) = delay_elapsed p (s_ip ss) (s_now ss) (srv w)
         in (\<lparr>srv = s', sessions = (sessions w)[n := ss\<lparr>handlers := (handlers ss)[h := st]\<rparr>]\<rparr>,
             calls))
      else (w, []))"
| "step (GeoReturned n h r) w =
     (if awaits w n h AwaitGeo
      then
        (let ss = sessions w ! n;
             (s', calls) = geo_returned r (s_ip ss) (s_now ss) (srv w)
         in (\<lparr>srv = s',
              sessions = (sessions w)[n := ss\<lparr>handlers := (handlers ss)[h := Finished]\<rparr>]\<rparr>,
             calls))
      else (w, []))"

fun run :: "world \<Rightarrow> event list \<Rightarrow> world" where
  "run w [] = w"
| "run w (e # es) = run (fst (step e w)) es"

text \<open>All socket calls of a run, and those on the socket of the \<open>n\<close>-th admitted connection.\<close>

fun all_calls :: "world \<Rightarrow> event list \<Rightarrow> sock_call list" where
  "all_calls w [] = []"
| "all_calls w (e # es) = snd (step e w) @ all_calls (fst (step e w)) es"

fun target :: "event \<Rightarrow> nat option" where
  "target (SockTimeout n) = Some n"
| "target (SockData n chunk) = Some n"
| "target (DelayElapsed n h p) = Some n"
| "target (GeoReturned n h r) = Some n"
| "target e = None"

fun session_calls :: "nat \<Rightarrow> world \<Rightarrow> event list \<Rightarrow> sock_call list" where
  "session_calls n w [] = []"
| "session_calls n w (e # es) =
     (if target e = Some n then snd (step e w) else []) @ session_calls n (fst (step e w)) es"

text \<open>
  The burst of the third scenario of the specification: sixteen connections from one
  address inside one window.
\<close>

definition burst :: "event list" where
  "burst = map (Connection (Some ''1.2.3.4''))
     [1000, 1001, 1002, 1003, 1004, 1005, 1006, 1007, 1008, 1009, 1010, 1011, 1012, 1013,
      1014, 1015]"

text \<open>
  A flood from another address in the same second: ninety-five connections, each of
  which the global counter counts.
\<close>

definition flood :: "event list" where
  "flood = replicate 95 (Connection (Some ''9.9.9.9'') 1000)"

subsection \<open>Vocabulary of the properties\<close>

text \<open>
  The time stamps of the connections from address \<open>a\<close> in a list of events, and the
  statement that each of these connections is admitted when the events run from \<open>w\<close>.
\<close>

fun conn_times :: "string \<Rightarrow> event list \<Rightarrow> int list" where
  "conn_times a [] = []"
| "conn_times a (Connection (Some b) t # es) =
     (if b = a then t # conn_times a es else conn_times a es)"
| "conn_times a (e # es) = conn_times a es"

fun admitted_all :: "string \<Rightarrow> world \<Rightarrow> event list \<Rightarrow> bool" where
  "admitted_all a w [] = True"
| "admitted_all a w (Connection (Some b) t # es) =
     ((b = a \<longrightarrow> fst (connection (Some b) t (srv w)) = Admitted a) \<and>
      admitted_all a (fst (step (Connection (Some b) t) w)) es)"
| "admitted_all a w (e # es) = admitted_all a (fst (step e w)) es"

text \<open>\<open>clientRecord[ip]\<close> read as the program reads it: the empty array when absent.\<close>

definition stored :: "string \<Rightarrow> server \<Rightarrow> int list" where
  "stored a s = (case clientRecord s a of None \<Rightarrow> [] | Some tss \<Rightarrow> tss)"

text \<open>
  The responses among a list of socket calls; the lists in which every write is followed
  at once by an end; what one reaction does to its socket (nothing, or one write and
  then one or two ends); the number of finished runs of the data handler of a
  connection; the number of idle timeouts of a connection in a list of events.
\<close>

fun writes :: "sock_call list \<Rightarrow> response list" where
  "writes [] = []"
| "writes (Write r # cs) = r # writes cs"
| "writes (End # cs) = writes cs"

fun paired :: "sock_call list \<Rightarrow> bool" where
  "paired [] = True"
| "paired (Write r # End # cs) = paired cs"
| "paired (End # cs) = paired cs"
| "paired cs = False"

definition block :: "sock_call list \<Rightarrow> bool" where
  "block cs = (cs = [] \<or> (\<exists>r. cs = [Write r, End] \<or> cs = [Write r, End, End]))"

definition finished :: "nat \<Rightarrow> world \<Rightarrow> nat" where
  "finished n w = length (filter (\<lambda>h. h = Finished) (handlers (sessions w ! n)))"

definition timeouts :: "nat \<Rightarrow> event list \<Rightarrow> nat" where
  "timeouts n evs = length (filter (\<lambda>e. e = SockTimeout n) evs)"

text \<open>
  One connection whose payload arrives in two chunks, neither of which is JSON; both
  runs of the data handler resume after their delay.
\<close>

definition two_chunks :: "event list" where
  "two_chunks =
     [Connection (Some ''1.2.3.4'') 1000, SockData 0 ''x'', SockData 0 ''y'',
      DelayElapsed 0 0 Invalid, DelayElapsed 0 1 Invalid]"

text \<open>
  A register message, a public address that connects and sends it, and the same address
  registering successfully and then connecting and sending the message again.
\<close>

definition register_msg :: string where
  \<open>register_msg = ''{"action":"register"}''\<close>

definition first_register :: "event list" where
  "first_register = [Connection (Some ''8.8.8.8'') 1000, SockData 0 register_msg]"

definition second_register :: "event list" where
  "second_register = first_register @
     [DelayElapsed 0 0 (Action ''register''), GeoReturned 0 0 (ResData (Some 10) (Some 20)),
      Connection (Some ''8.8.8.8'') 5000, SockData 1 register_msg]"

text \<open>
  Every record of an address that \<open>isPrivateIP\<close> accepts has the dummy coordinate; no
  response among a list of socket calls lists such an address, or the address \<open>k\<close>.
\<close>

definition private_dummy :: "(string \<times> peer_info) list \<Rightarrow> bool" where
  "private_dummy pr =
     (\<forall>(k, v) \<in> set pr. isPrivateIP k \<longrightarrow> geo v = \<lparr>latitude = 0, longitude = 0\<rparr>)"

definition no_private_listed :: "sock_call list \<Rightarrow> bool" where
  "no_private_listed cs =
     (\<forall>r ps p. Write r \<in> set cs \<and> peers r = Some ps \<and> p \<in> set ps \<longrightarrow> \<not> isPrivateIP (ip p))"

definition not_listed :: "string \<Rightarrow> sock_call list \<Rightarrow> bool" where
  "not_listed k cs =
     (\<forall>r ps p. Write r \<in> set cs \<and> peers r = Some ps \<and> p \<in> set ps \<longrightarrow> ip p \<noteq> k)"

text \<open>
  The event belongs to a register of address \<open>k\<close>: a run of the data handler of one of
  its connections resumes with a register message, or resumes after \<open>getGeo\<close> (only a
  register waits for it).  No such event occurs when the events run from \<open>w\<close>.
\<close>

fun registers :: "string \<Rightarrow> world \<Rightarrow> event \<Rightarrow> bool" where
  "registers k w (DelayElapsed n h p) =
     (n < length (sessions w) \<and> s_ip (sessions w ! n) = k \<and> p = Action ''register'')"
| "registers k w (GeoReturned n h r) = (n < length (sessions w) \<and> s_ip (sessions w ! n) = k)"
| "registers k w e = False"

fun no_register :: "string \<Rightarrow> world \<Rightarrow> event list \<Rightarrow> bool" where
  "no_register k w [] = True"
| "no_register k w (e # es) = (\<not> registers k w e \<and> no_register k (fst (step e w)) es)"

text \<open>
  After the events of \<open>second_register\<close>: a private address connects and registers;
  and, after a sweep that finds the first registrant stale, another public address
  connects and registers.
\<close>

definition private_register :: "event list" where
  "private_register =
     [Connection (Some ''10.0.0.5'') 6000, SockData 2 register_msg,
      DelayElapsed 2 0 (Action ''register''), GeoReturned 2 0 Threw]"

definition late_register :: "event list" where
  "late_register =
     [Connection (Some ''9.9.9.9'') 400001, SockData 2 register_msg,
      DelayElapsed 2 0 (Action ''register''), GeoReturned 2 0 (ResData (Some 30) (Some 40))]"

section \<open>Properties\<close>

subsection \<open>What each reaction leaves alone\<close>

lemma register_with_frame:
  "banList (fst (register_with a now g s)) = banList s"
  "clientRecord (fst (register_with a now g s)) = clientRecord s"
  "globalRequestCount (fst (register_with a now g s)) = globalRequestCount s"
  by (simp_all add: register_with_def Let_def split: option.splits)

lemma delay_elapsed_frame:
  "banList (fst (delay_elapsed p a now s)) = banList s"
  "clientRecord (fst (delay_elapsed p a now s)) = clientRecord s"
  "globalRequestCount (fst (delay_elapsed p a now s)) = globalRequestCount s"
  by (simp_all add: delay_elapsed_def register_with_frame split: parsed.splits option.splits)

lemma geo_returned_frame:
  "banList (fst (geo_returned r a now s)) = banList s"
  "clientRecord (fst (geo_returned r a now s)) = clientRecord s"
  "globalRequestCount (fst (geo_returned r a now s)) = globalRequestCount s"
  by (simp_all add: geo_returned_def register_with_frame)

lemma srv_step_cases:
  "srv (fst (step (Connection ra now) w)) = snd (connection ra now (srv w))"
  "srv (fst (step ResetCounter w)) = (srv w)\<lparr>globalRequestCount := 0\<rparr>"
  "srv (fst (step (Sweep t) w)) = sweep t (srv w)"
  "srv (fst (step (SockTimeout n) w)) = srv w"
  "srv (fst (step (SockData n chunk) w)) = srv w"
  "srv (fst (step (DelayElapsed n h p) w)) = srv w \<or>
   srv (fst (step (DelayElapsed n h p) w)) =
     fst (delay_elapsed p (s_ip (sessions w ! n)) (s_now (sessions w ! n)) (srv w))"
  "srv (fst (step (GeoReturned n h r) w)) = srv w \<or>
   srv (fst (step (GeoReturned n h r) w)) =
     fst (geo_returned r (s_ip (sessions w ! n)) (s_now (sessions w ! n)) (srv w))"
  by (simp_all add: Let_def split: prod.splits outcome.splits)

subsection \<open>The ban table\<close>

lemma connection_banList:
  "banList s = Map.empty \<Longrightarrow> banList (snd (connection ra now s)) = Map.empty"
  by (simp add: connection_def Let_def RATE_LIMIT_def split: option.splits)

lemma step_banList:
  assumes "banList (srv w) = Map.empty"
  shows "banList (srv (fst (step e w))) = Map.empty"
proof (cases e)
  case (DelayElapsed n h p)
  then show ?thesis
    using assms srv_step_cases(6) [of n h p w]
    by (auto simp del: step.simps simp add: delay_elapsed_frame)
next
  case (GeoReturned n h r)
  then show ?thesis
    using assms srv_step_cases(7) [of n h r w]
    by (auto simp del: step.simps simp add: geo_returned_frame)
qed (simp_all only: srv_step_cases connection_banList [OF assms], simp_all add: assms sweep_def)

lemma run_banList:
  "banList (srv w) = Map.empty \<Longrightarrow> banList (srv (run w evs)) = Map.empty"
  by (induction evs arbitrary: w) (simp_all add: step_banList)

lemma init_banList: "banList (srv init) = Map.empty"
  by (simp add: init_def)

lemma connection_not_dropped:
  "banList s = Map.empty \<Longrightarrow> a \<noteq> [] \<Longrightarrow> fst (connection (Some a) now s) \<noteq> Dropped"
  by (simp add: connection_def Let_def)

lemma connection_admitted_window:
  "fst (connection ra now s) = Admitted a \<Longrightarrow>
   \<exists>ts. clientRecord (snd (connection ra now s)) a = Some ts \<and> length ts \<le> RATE_LIMIT"
  by (auto simp: connection_def Let_def RATE_LIMIT_def split: option.splits if_splits)

text \<open>
  Claim C8.  After every sequence of events from the initial state the ban table is
  empty.  Hence the banned-source guard drops no connection with a non-empty address,
  and whenever a connection is admitted the stored window of its address has at most
  \<open>RATE_LIMIT\<close> entries after the append, which is not more than \<open>RATE_LIMIT * 3\<close>: the
  auto-ban test, reached only on that path, is never true.
\<close>

theorem ban_table_stays_empty:
  "banList (srv (run init evs)) = Map.empty \<and>
   (\<forall>a now. a \<noteq> [] \<longrightarrow> fst (connection (Some a) now (srv (run init evs))) \<noteq> Dropped) \<and>
   (\<forall>ra now a. fst (connection ra now (srv (run init evs))) = Admitted a \<longrightarrow>
      (\<exists>ts. clientRecord (snd (connection ra now (srv (run init evs)))) a = Some ts \<and>
            length ts \<le> RATE_LIMIT \<and> \<not> length ts > RATE_LIMIT * 3))"
proof -
  have b: "banList (srv (run init evs)) = Map.empty"
    by (rule run_banList [OF init_banList])
  show ?thesis
    using b connection_not_dropped [OF b] connection_admitted_window
    by (fastforce simp: RATE_LIMIT_def)
qed

theorem ban_table_stays_empty_witness:
  "banList (srv (run init burst)) = Map.empty \<and>
   ''1.2.3.4'' \<noteq> [] \<and>
   fst (connection (Some ''1.2.3.4'') 2000 (srv (run init burst))) \<noteq> Dropped \<and>
   fst (connection (Some ''1.2.3.4'') 1000 (srv (run init []))) = Admitted ''1.2.3.4'' \<and>
   (\<exists>ts. clientRecord (snd (connection (Some ''1.2.3.4'') 1000 (srv (run init []))))
           ''1.2.3.4'' = Some ts \<and> length ts \<le> RATE_LIMIT \<and> \<not> length ts > RATE_LIMIT * 3)"
proof -
  have adm: "fst (connection (Some ''1.2.3.4'') 1000 (srv (run init []))) = Admitted ''1.2.3.4''"
    by (simp add: init_def connection_def Let_def RATE_LIMIT_def MAX_CONN_PER_SECOND_def)
  have ne: "''1.2.3.4'' \<noteq> []" by simp
  show ?thesis
    using ban_table_stays_empty [of burst] ban_table_stays_empty [of "[]"] adm ne
    by blast
qed

text \<open>
  Claim C1 (the code departs from it).  The claim has the auto-ban test run on every
  request.  In the source the refusal branch of the rate limiter returns at line 239,
  before the test of line 244, although it still appends the time stamp at line 238.
  On the burst of sixteen connections the first five are admitted and the other eleven
  are refused with \<open>ERROR_RATE_LIMIT\<close>; the stored window then has sixteen entries, more
  than \<open>RATE_LIMIT * 3\<close>, and no ban entry exists; a seventeenth connection is refused
  with \<open>ERROR_RATE_LIMIT\<close> again instead of being dropped.
\<close>

theorem burst_sets_no_ban:
  "clientRecord (srv (run init burst)) ''1.2.3.4'' =
     Some [1000, 1001, 1002, 1003, 1004, 1005, 1006, 1007, 1008, 1009, 1010, 1011, 1012,
           1013, 1014, 1015] \<and>
   banList (srv (run init burst)) ''1.2.3.4'' = None \<and>
   fst (connection (Some ''1.2.3.4'') 1016 (srv (run init burst))) =
     Refused (buildResponse ERROR_RATE_LIMIT None)"
  by (simp add: burst_def init_def connection_def Let_def RATE_LIMIT_def WINDOW_MS_def
      MAX_CONN_PER_SECOND_def)

subsection \<open>The per-address rate limit\<close>

lemma connection_other_clientRecord:
  "ra \<noteq> Some a \<Longrightarrow> clientRecord (snd (connection ra now s)) a = clientRecord s a"
  by (simp add: connection_def Let_def split: option.splits)

lemma step_other_clientRecord:
  assumes "\<forall>t. e \<noteq> Connection (Some a) t"
  shows "clientRecord (srv (fst (step e w))) a = clientRecord (srv w) a"
proof (cases e)
  case (Connection ra t)
  then have "ra \<noteq> Some a" using assms by auto
  then show ?thesis using Connection
    by (simp del: step.simps add: srv_step_cases connection_other_clientRecord)
next
  case (DelayElapsed n h p)
  then show ?thesis
    using srv_step_cases(6) [of n h p w]
    by (auto simp del: step.simps simp add: delay_elapsed_frame)
next
  case (GeoReturned n h r)
  then show ?thesis
    using srv_step_cases(7) [of n h r w]
    by (auto simp del: step.simps simp add: geo_returned_frame)
qed (simp_all only: srv_step_cases, simp_all add: sweep_def)

lemma connection_admitted_stored:
  assumes "fst (connection (Some a) t s) = Admitted a"
  shows "clientRecord (snd (connection (Some a) t s)) a =
           Some (filter (\<lambda>ts. t - ts < WINDOW_MS) (stored a s) @ [t]) \<and>
         length (filter (\<lambda>ts. t - ts < WINDOW_MS) (stored a s)) < RATE_LIMIT"
  using assms
  by (auto simp: connection_def stored_def Let_def split: option.splits if_splits)

lemma admitted_all_Cons:
  "admitted_all a w (e # es) \<longleftrightarrow>
     (\<forall>t. e = Connection (Some a) t \<longrightarrow> fst (connection (Some a) t (srv w)) = Admitted a) \<and>
     admitted_all a (fst (step e w)) es"
  by (cases "(a, w, e # es)" rule: admitted_all.cases) (auto simp del: step.simps)

lemma conn_times_cases:
  "(\<exists>t. e = Connection (Some a) t \<and> conn_times a (e # es) = t # conn_times a es) \<or>
   ((\<forall>t. e \<noteq> Connection (Some a) t) \<and> conn_times a (e # es) = conn_times a es)"
  by (cases "(a, e # es)" rule: conn_times.cases) auto

lemma admitted_run_stored:
  assumes "admitted_all a w evs"
    and "stored a (srv w) = pre @ dn"
    and "\<forall>x \<in> set dn \<union> set (conn_times a evs). \<forall>t \<in> set (conn_times a evs). t - x < WINDOW_MS"
  shows "\<exists>pre'. stored a (srv (run w evs)) = pre' @ dn @ conn_times a evs"
  using assms
proof (induction evs arbitrary: w pre dn)
  case Nil
  then show ?case by auto
next
  case (Cons e es)
  from conn_times_cases [of e a es] show ?case
  proof (elim disjE exE conjE)
    fix t assume e: "e = Connection (Some a) t" and ct: "conn_times a (e # es) = t # conn_times a es"
    have adm: "fst (connection (Some a) t (srv w)) = Admitted a"
      using Cons.prems(1) e by (simp add: admitted_all_Cons del: admitted_all.simps step.simps)
    have keep: "filter (\<lambda>ts. t - ts < WINDOW_MS) dn = dn"
      using Cons.prems(3) ct by (auto simp: filter_id_conv)
    have st: "stored a (srv (fst (step e w))) =
                filter (\<lambda>ts. t - ts < WINDOW_MS) pre @ (dn @ [t])"
      using connection_admitted_stored [OF adm] Cons.prems(2) keep e
      by (simp only: srv_step_cases) (simp add: stored_def)
    have "\<exists>pre'. stored a (srv (run (fst (step e w)) es)) = pre' @ (dn @ [t]) @ conn_times a es"
    proof (rule Cons.IH [OF _ st])
      show "admitted_all a (fst (step e w)) es" using Cons.prems(1) by (simp add: admitted_all_Cons del: admitted_all.simps step.simps)
      show "\<forall>x\<in>set (dn @ [t]) \<union> set (conn_times a es). \<forall>t\<in>set (conn_times a es). t - x < WINDOW_MS"
        using Cons.prems(3) ct by auto
    qed
    then show ?thesis using ct by simp
  next
    assume ne: "\<forall>t. e \<noteq> Connection (Some a) t" and ct: "conn_times a (e # es) = conn_times a es"
    have st: "stored a (srv (fst (step e w))) = pre @ dn"
      using step_other_clientRecord [OF ne, of w] Cons.prems(2) by (simp add: stored_def)
    have "\<exists>pre'. stored a (srv (run (fst (step e w)) es)) = pre' @ dn @ conn_times a es"
    proof (rule Cons.IH [OF _ st])
      show "admitted_all a (fst (step e w)) es" using Cons.prems(1) by (simp add: admitted_all_Cons del: admitted_all.simps step.simps)
      show "\<forall>x\<in>set dn \<union> set (conn_times a es). \<forall>t\<in>set (conn_times a es). t - x < WINDOW_MS"
        using Cons.prems(3) ct by auto
    qed
    then show ?thesis using ct by simp
  qed
qed

lemma admitted_run_bound:
  assumes "admitted_all a w evs"
    and "conn_times a evs \<noteq> [] \<or>
         (\<exists>ts. clientRecord (srv w) a = Some ts \<and> length ts \<le> RATE_LIMIT)"
  shows "\<exists>ts. clientRecord (srv (run w evs)) a = Some ts \<and> length ts \<le> RATE_LIMIT"
  using assms
proof (induction evs arbitrary: w)
  case Nil
  then show ?case by simp
next
  case (Cons e es)
  have adm: "admitted_all a (fst (step e w)) es" using Cons.prems(1) by (simp add: admitted_all_Cons del: admitted_all.simps step.simps)
  from conn_times_cases [of e a es] show ?case
  proof (elim disjE exE conjE)
    fix t assume e: "e = Connection (Some a) t"
    have "fst (connection (Some a) t (srv w)) = Admitted a"
      using Cons.prems(1) e by (simp add: admitted_all_Cons del: admitted_all.simps step.simps)
    from connection_admitted_window [OF this]
    have "\<exists>ts. clientRecord (srv (fst (step e w))) a = Some ts \<and> length ts \<le> RATE_LIMIT"
      using e by (simp only: srv_step_cases)
    then show ?thesis using Cons.IH [OF adm] by simp
  next
    assume ne: "\<forall>t. e \<noteq> Connection (Some a) t" and ct: "conn_times a (e # es) = conn_times a es"
    have "conn_times a es \<noteq> [] \<or>
         (\<exists>ts. clientRecord (srv (fst (step e w))) a = Some ts \<and> length ts \<le> RATE_LIMIT)"
      using Cons.prems(2) ct step_other_clientRecord [OF ne, of w] by simp
    then show ?thesis using Cons.IH [OF adm] by simp
  qed
qed

lemma connection_admitted_nonempty:
  "fst (connection (Some a) t s) = Admitted b \<Longrightarrow> a \<noteq> []"
  by (auto simp: connection_def)

lemma admitted_all_nonempty:
  "admitted_all a w evs \<Longrightarrow> conn_times a evs \<noteq> [] \<Longrightarrow> a \<noteq> []"
proof (induction evs arbitrary: w)
  case Nil
  then show ?case by simp
next
  case (Cons e es)
  from conn_times_cases [of e a es] show ?case
  proof (elim disjE exE conjE)
    fix t assume "e = Connection (Some a) t"
    then have "fst (connection (Some a) t (srv w)) = Admitted a"
      using Cons.prems(1) by (simp add: admitted_all_Cons del: admitted_all.simps step.simps)
    then show ?thesis by (rule connection_admitted_nonempty)
  next
    assume "conn_times a (e # es) = conn_times a es"
    then show ?thesis
      using Cons.IH [of "fst (step e w)"] Cons.prems
      by (simp add: admitted_all_Cons del: admitted_all.simps step.simps)
  qed
qed

lemma run_append: "run w (xs @ ys) = run (run w xs) ys"
  by (induction xs arbitrary: w) simp_all

lemma all_calls_append: "all_calls w (xs @ ys) = all_calls w xs @ all_calls (run w xs) ys"
  by (induction xs arbitrary: w) simp_all

lemma refused_after_admitted_run:
  assumes "admitted_all a w evs"
    and "length (conn_times a evs) = RATE_LIMIT"
    and "\<forall>x \<in> set (conn_times a evs @ [now]). \<forall>t \<in> set (conn_times a evs @ [now]). t - x < WINDOW_MS"
    and "banList (srv (run w evs)) a = None"
    and "globalRequestCount (srv (run w evs)) < MAX_CONN_PER_SECOND"
  shows "connection (Some a) now (srv (run w evs)) =
    (Refused (buildResponse ERROR_RATE_LIMIT None),
     (srv (run w evs))\<lparr>globalRequestCount := globalRequestCount (srv (run w evs)) + 1,
        clientRecord := (clientRecord (srv (run w evs)))(a \<mapsto> conn_times a evs @ [now])\<rparr>)"
proof -
  let ?ts = "conn_times a evs"
  let ?s = "srv (run w evs)"
  have ne: "?ts \<noteq> []" using assms(2) by (auto simp: RATE_LIMIT_def)
  obtain pre where pre: "stored a ?s = pre @ [] @ ?ts"
    using admitted_run_stored [OF assms(1), of "stored a (srv w)" "[]"] assms(3) by auto
  obtain ts where ts: "clientRecord ?s a = Some ts" "length ts \<le> RATE_LIMIT"
    using admitted_run_bound [OF assms(1)] ne by blast
  have "ts = ?ts" using pre ts assms(2) by (simp add: stored_def)
  then have rec: "clientRecord ?s a = Some ?ts" using ts by simp
  have a_ne: "a \<noteq> []" by (rule admitted_all_nonempty [OF assms(1) ne])
  have keep: "filter (\<lambda>ts. now - ts < WINDOW_MS) ?ts = ?ts"
    using assms(3) by (auto simp: filter_id_conv)
  show ?thesis
    using rec a_ne keep assms(2,4,5)
    by (auto simp: connection_def Let_def split: option.splits)
qed

lemma connection_count:
  "banList s = Map.empty \<Longrightarrow> a \<noteq> [] \<Longrightarrow>
   globalRequestCount (snd (connection (Some a) t s)) = Suc (globalRequestCount s)"
  by (simp add: connection_def Let_def)

lemma run_replicate_count:
  "banList (srv w) = Map.empty \<Longrightarrow> a \<noteq> [] \<Longrightarrow>
   globalRequestCount (srv (run w (replicate n (Connection (Some a) t)))) =
     globalRequestCount (srv w) + n"
proof (induction n arbitrary: w)
  case 0
  then show ?case by simp
next
  case (Suc n)
  have b: "banList (srv (fst (step (Connection (Some a) t) w))) = Map.empty"
    by (rule step_banList [OF Suc.prems(1)])
  show ?case
    using Suc.IH [OF b Suc.prems(2)] connection_count [OF Suc.prems]
    by (simp add: srv_step_cases del: step.simps)
qed

lemma run_other_clientRecord:
  "\<forall>e \<in> set evs. \<forall>t. e \<noteq> Connection (Some a) t \<Longrightarrow>
   clientRecord (srv (run w evs)) a = clientRecord (srv w) a"
proof (induction evs arbitrary: w)
  case Nil
  then show ?case by simp
next
  case (Cons e es)
  then show ?case
    using step_other_clientRecord [of e a w] by (simp del: step.simps)
qed

lemma flood_world:
  "globalRequestCount (srv (run init flood)) = 95"
  "banList (srv (run init flood)) = Map.empty"
  "clientRecord (srv (run init flood)) ''1.2.3.4'' = None"
proof -
  show "globalRequestCount (srv (run init flood)) = 95"
    using run_replicate_count [OF init_banList, of "''9.9.9.9''" 95 1000]
    by (simp add: flood_def init_def)
  show "banList (srv (run init flood)) = Map.empty"
    by (rule run_banList [OF init_banList])
  have "clientRecord (srv (run init flood)) ''1.2.3.4'' = clientRecord (srv init) ''1.2.3.4''"
    by (rule run_other_clientRecord) (simp add: flood_def)
  then show "clientRecord (srv (run init flood)) ''1.2.3.4'' = None"
    by (simp add: init_def)
qed

lemma flood_then_five:
  "admitted_all ''1.2.3.4'' (run init flood) (take 5 burst)"
  "globalRequestCount (srv (run init (flood @ take 5 burst))) = 100"
proof -
  show "admitted_all ''1.2.3.4'' (run init flood) (take 5 burst)"
    by (simp add: burst_def flood_world connection_def Let_def RATE_LIMIT_def WINDOW_MS_def
        MAX_CONN_PER_SECOND_def)
  have "globalRequestCount (srv (run (run init flood) (take 5 burst))) = 100"
    by (simp add: burst_def flood_world connection_def Let_def RATE_LIMIT_def WINDOW_MS_def
        MAX_CONN_PER_SECOND_def)
  then show "globalRequestCount (srv (run init (flood @ take 5 burst))) = 100"
    by (simp only: run_append)
qed

lemma admitted_run_record:
  assumes "admitted_all a w evs"
    and "length (conn_times a evs) = RATE_LIMIT"
    and "\<forall>x \<in> set (conn_times a evs @ [now]). \<forall>t \<in> set (conn_times a evs @ [now]). t - x < WINDOW_MS"
  shows "clientRecord (srv (run w evs)) a = Some (conn_times a evs) \<and> a \<noteq> []"
proof -
  let ?ts = "conn_times a evs"
  let ?s = "srv (run w evs)"
  have ne: "?ts \<noteq> []" using assms(2) by (auto simp: RATE_LIMIT_def)
  obtain pre where pre: "stored a ?s = pre @ [] @ ?ts"
    using admitted_run_stored [OF assms(1), of "stored a (srv w)" "[]"] assms(3) by auto
  obtain ts where ts: "clientRecord ?s a = Some ts" "length ts \<le> RATE_LIMIT"
    using admitted_run_bound [OF assms(1)] ne by blast
  have "ts = ?ts" using pre ts assms(2) by (simp add: stored_def)
  then have "clientRecord ?s a = Some ?ts" using ts by simp
  moreover have "a \<noteq> []" by (rule admitted_all_nonempty [OF assms(1) ne])
  ultimately show ?thesis by simp
qed

lemma global_refusal:
  assumes "a \<noteq> []" and "banList s a = None"
    and "\<not> globalRequestCount s < MAX_CONN_PER_SECOND"
  shows "connection (Some a) now s =
    (Refused (buildResponse ERROR_GLOBAL_DOS None),
     s\<lparr>globalRequestCount := globalRequestCount s + 1\<rparr>)"
  using assms by (simp add: connection_def Let_def)

lemma five_in_window:
  "conn_times ''1.2.3.4'' (take 5 burst) = [1000, 1001, 1002, 1003, 1004]"
  "length (conn_times ''1.2.3.4'' (take 5 burst)) = RATE_LIMIT"
  "\<forall>x \<in> set (conn_times ''1.2.3.4'' (take 5 burst) @ [1005]).
   \<forall>t \<in> set (conn_times ''1.2.3.4'' (take 5 burst) @ [1005]). t - x < WINDOW_MS"
  by (simp_all add: burst_def RATE_LIMIT_def WINDOW_MS_def)

text \<open>
  Claim C4, as amended.  From any reachable state, let the events \<open>evs\<close> contain exactly
  \<open>RATE_LIMIT\<close> connections from address \<open>a\<close>, all admitted, and let their time stamps
  and \<open>now\<close> lie within one window (any two differ by less than \<open>WINDOW_MS\<close>).  Events
  on other sockets and connections from other addresses may come in between.  Then the
  next connection from \<open>a\<close> at time \<open>now\<close> is refused.  When the global counter is still
  below \<open>MAX_CONN_PER_SECOND\<close>, it is answered \<open>ERROR_RATE_LIMIT\<close>, status 2002, and
  \<open>now\<close> is appended: the stored sequence is the \<open>RATE_LIMIT\<close> admitted time stamps
  followed by \<open>now\<close>.  Otherwise the global guard of line 218, which comes first,
  answers \<open>ERROR_GLOBAL_DOS\<close>, status 2003, and nothing is appended.
\<close>

theorem sixth_request_in_window_refused:
  assumes "admitted_all a (run init pre) evs"
    and "length (conn_times a evs) = RATE_LIMIT"
    and "\<forall>x \<in> set (conn_times a evs @ [now]). \<forall>t \<in> set (conn_times a evs @ [now]). t - x < WINDOW_MS"
  shows "(globalRequestCount (srv (run init (pre @ evs))) < MAX_CONN_PER_SECOND \<longrightarrow>
           snd (step (Connection (Some a) now) (run init (pre @ evs))) =
             [Write (buildResponse ERROR_RATE_LIMIT None), End] \<and>
           statusCode (buildResponse ERROR_RATE_LIMIT None) = 2002 \<and>
           clientRecord (srv (fst (step (Connection (Some a) now) (run init (pre @ evs))))) a =
             Some (conn_times a evs @ [now])) \<and>
         (\<not> globalRequestCount (srv (run init (pre @ evs))) < MAX_CONN_PER_SECOND \<longrightarrow>
           snd (step (Connection (Some a) now) (run init (pre @ evs))) =
             [Write (buildResponse ERROR_GLOBAL_DOS None), End] \<and>
           statusCode (buildResponse ERROR_GLOBAL_DOS None) = 2003 \<and>
           clientRecord (srv (fst (step (Connection (Some a) now) (run init (pre @ evs))))) a =
             Some (conn_times a evs))"
proof -
  have r: "run init (pre @ evs) = run (run init pre) evs"
    by (rule run_append)
  have b: "banList (srv (run (run init pre) evs)) a = None"
    using run_banList [OF init_banList, of "pre @ evs"] by (simp add: r)
  note rec = admitted_run_record [OF assms]
  have low: "snd (step (Connection (Some a) now) (run (run init pre) evs)) =
             [Write (buildResponse ERROR_RATE_LIMIT None), End] \<and>
           clientRecord (srv (fst (step (Connection (Some a) now) (run (run init pre) evs)))) a =
             Some (conn_times a evs @ [now])"
    if "globalRequestCount (srv (run (run init pre) evs)) < MAX_CONN_PER_SECOND"
    using refused_after_admitted_run [OF assms b that] by simp
  have high: "snd (step (Connection (Some a) now) (run (run init pre) evs)) =
             [Write (buildResponse ERROR_GLOBAL_DOS None), End] \<and>
           clientRecord (srv (fst (step (Connection (Some a) now) (run (run init pre) evs)))) a =
             Some (conn_times a evs)"
    if "\<not> globalRequestCount (srv (run (run init pre) evs)) < MAX_CONN_PER_SECOND"
    using global_refusal [OF _ b that, of now] rec by simp
  have codes: "statusCode (buildResponse ERROR_RATE_LIMIT None) = 2002"
    "statusCode (buildResponse ERROR_GLOBAL_DOS None) = 2003"
    by (simp_all add: buildResponse_def ERROR_RATE_LIMIT_def ERROR_GLOBAL_DOS_def)
  show ?thesis
    unfolding r using low high codes by blast
qed

theorem sixth_request_in_window_refused_witness:
  "admitted_all ''1.2.3.4'' (run init []) (take 5 burst) \<and>
   length (conn_times ''1.2.3.4'' (take 5 burst)) = RATE_LIMIT \<and>
   globalRequestCount (srv (run init ([] @ take 5 burst))) < MAX_CONN_PER_SECOND \<and>
   snd (step (Connection (Some ''1.2.3.4'') 1005) (run init ([] @ take 5 burst))) =
     [Write (buildResponse ERROR_RATE_LIMIT None), End] \<and>
   clientRecord (srv (fst (step (Connection (Some ''1.2.3.4'') 1005)
       (run init ([] @ take 5 burst))))) ''1.2.3.4'' =
     Some [1000, 1001, 1002, 1003, 1004, 1005] \<and>
   admitted_all ''1.2.3.4'' (run init flood) (take 5 burst) \<and>
   \<not> globalRequestCount (srv (run init (flood @ take 5 burst))) < MAX_CONN_PER_SECOND \<and>
   snd (step (Connection (Some ''1.2.3.4'') 1005) (run init (flood @ take 5 burst))) =
     [Write (buildResponse ERROR_GLOBAL_DOS None), End] \<and>
   clientRecord (srv (fst (step (Connection (Some ''1.2.3.4'') 1005)
       (run init (flood @ take 5 burst))))) ''1.2.3.4'' =
     Some [1000, 1001, 1002, 1003, 1004]"
proof -
  have 1: "admitted_all ''1.2.3.4'' (run init []) (take 5 burst)"
    by (simp add: burst_def init_def connection_def Let_def RATE_LIMIT_def WINDOW_MS_def
        MAX_CONN_PER_SECOND_def)
  have 5: "globalRequestCount (srv (run init ([] @ take 5 burst))) < MAX_CONN_PER_SECOND"
    by (simp add: burst_def init_def connection_def Let_def RATE_LIMIT_def WINDOW_MS_def
        MAX_CONN_PER_SECOND_def)
  have 7: "\<not> globalRequestCount (srv (run init (flood @ take 5 burst))) < MAX_CONN_PER_SECOND"
    by (simp add: flood_then_five(2) MAX_CONN_PER_SECOND_def)
  show ?thesis
    using sixth_request_in_window_refused [OF 1 five_in_window(2,3)]
      sixth_request_in_window_refused [OF flood_then_five(1) five_in_window(2,3)]
      1 5 7 flood_then_five(1) five_in_window(2)
    by (simp add: five_in_window(1))
qed

text \<open>
  Claim C4 as stated fails.  After the flood of ninety-five connections from another
  address the counter stands at 95; five connections from \<open>1.2.3.4\<close> within one window
  are all admitted and bring it to 100; the sixth one, in the same window, is stopped by
  the global guard: it is answered \<open>ERROR_GLOBAL_DOS\<close>, not \<open>ERROR_RATE_LIMIT\<close>, and its
  time stamp is not appended.
\<close>

theorem sixth_request_answered_global_dos:
  "admitted_all ''1.2.3.4'' (run init flood) (take 5 burst) \<and>
   conn_times ''1.2.3.4'' (take 5 burst) = [1000, 1001, 1002, 1003, 1004] \<and>
   snd (step (Connection (Some ''1.2.3.4'') 1005) (run init (flood @ take 5 burst))) =
     [Write (buildResponse ERROR_GLOBAL_DOS None), End] \<and>
   statusCode (buildResponse ERROR_GLOBAL_DOS None) \<noteq> 2002 \<and>
   clientRecord (srv (fst (step (Connection (Some ''1.2.3.4'') 1005)
       (run init (flood @ take 5 burst))))) ''1.2.3.4'' =
     Some [1000, 1001, 1002, 1003, 1004]"
proof -
  let ?s = "srv (run (run init flood) (take 5 burst))"
  have r: "run init (flood @ take 5 burst) = run (run init flood) (take 5 burst)"
    by (rule run_append)
  have rec: "clientRecord ?s ''1.2.3.4'' = Some [1000, 1001, 1002, 1003, 1004]"
    and ne: "''1.2.3.4'' \<noteq> []"
    using admitted_run_record [OF flood_then_five(1) five_in_window(2,3)]
    by (simp_all add: five_in_window(1))
  have b: "banList ?s ''1.2.3.4'' = None"
    using run_banList [OF init_banList, of "flood @ take 5 burst"] by (simp add: r)
  have g: "\<not> globalRequestCount ?s < MAX_CONN_PER_SECOND"
    using flood_then_five(2) by (simp add: r MAX_CONN_PER_SECOND_def)
  have c: "connection (Some ''1.2.3.4'') 1005 ?s =
    (Refused (buildResponse ERROR_GLOBAL_DOS None),
     ?s\<lparr>globalRequestCount := globalRequestCount ?s + 1\<rparr>)"
    by (rule global_refusal [OF ne b g])
  have st: "statusCode (buildResponse ERROR_GLOBAL_DOS None) \<noteq> 2002"
    by (simp add: buildResponse_def ERROR_GLOBAL_DOS_def)
  show ?thesis
    unfolding r using flood_then_five(1) five_in_window(1) c rec st by simp
qed

subsection \<open>Responses of one connection\<close>

lemma writes_append: "writes (xs @ ys) = writes xs @ writes ys"
  by (induction xs rule: writes.induct) simp_all

lemma paired_append: "paired xs \<Longrightarrow> paired ys \<Longrightarrow> paired (xs @ ys)"
  by (induction xs rule: paired.induct) simp_all

lemma register_with_block: "block (snd (register_with a now g s))"
  by (simp add: register_with_def block_def Let_def split: option.splits)

lemma delay_elapsed_block: "block (fst (snd (delay_elapsed p a now s)))"
  using register_with_block [of a now _ s]
  by (simp add: delay_elapsed_def block_def split: parsed.splits option.splits)

lemma step_block: "target e = Some n \<Longrightarrow> block (snd (step e w))"
proof (cases e)
  case (DelayElapsed n h p)
  then show ?thesis
    using delay_elapsed_block [of p "s_ip (sessions w ! n)" "s_now (sessions w ! n)" "srv w"]
    by (auto simp: Let_def block_def split: prod.splits)
next
  case (GeoReturned n h r)
  then show ?thesis
    using register_with_block [of "s_ip (sessions w ! n)" "s_now (sessions w ! n)" "getGeo (s_ip (sessions w ! n)) r" "srv w"]
    by (auto simp: Let_def block_def geo_returned_def split: prod.splits)
qed (auto simp: block_def on_timeout_def on_data_def Let_def)


lemma block_paired: "block cs \<Longrightarrow> paired cs"
  by (auto simp: block_def)

lemma block_before_end: "block cs \<Longrightarrow> cs \<noteq> [] \<Longrightarrow> takeWhile (\<lambda>c. c \<noteq> End) (cs @ ds) = [hd cs] \<and> length (writes [hd cs]) = 1"
  by (auto simp: block_def)

lemma step_DelayElapsed:
  "step (DelayElapsed n h p) w =
    (if awaits w n h AwaitDelay then
    (\<lparr>srv = fst (delay_elapsed p (s_ip (sessions w ! n)) (s_now (sessions w ! n)) (srv w)),
      sessions = (sessions w)[n := (sessions w ! n)\<lparr>handlers := (handlers (sessions w ! n))
         [h := snd (snd (delay_elapsed p (s_ip (sessions w ! n)) (s_now (sessions w ! n)) (srv w)))]\<rparr>]\<rparr>,
     fst (snd (delay_elapsed p (s_ip (sessions w ! n)) (s_now (sessions w ! n)) (srv w))))
    else (w, []))"
  by (simp add: Let_def split: prod.splits)

lemma step_GeoReturned:
  "step (GeoReturned n h r) w =
    (if awaits w n h AwaitGeo then
    (\<lparr>srv = fst (geo_returned r (s_ip (sessions w ! n)) (s_now (sessions w ! n)) (srv w)),
      sessions = (sessions w)[n := (sessions w ! n)\<lparr>handlers := (handlers (sessions w ! n))
         [h := Finished]\<rparr>]\<rparr>,
     snd (geo_returned r (s_ip (sessions w ! n)) (s_now (sessions w ! n)) (srv w)))
    else (w, []))"
  by (simp add: Let_def split: prod.splits)

lemma sessions_step_Connection:
  "sessions (fst (step (Connection ra now) w)) = sessions w \<or>
   (\<exists>a. sessions (fst (step (Connection ra now) w)) =
      sessions w @ [\<lparr>s_ip = a, s_now = now, dataBuffer = [], handlers = []\<rparr>])"
  by (simp split: prod.splits outcome.splits)

lemma length_sessions_step: "length (sessions w) \<le> length (sessions (fst (step e w)))"
proof (cases e)
  case (Connection ra now)
  then show ?thesis using sessions_step_Connection [of ra now w] by auto
next
  case (DelayElapsed n h p)
  then show ?thesis by (simp add: step_DelayElapsed del: step.simps)
next
  case (GeoReturned n h r)
  then show ?thesis by (simp add: step_GeoReturned del: step.simps)
qed simp_all

lemma count_update:
  "h < length xs \<Longrightarrow> \<not> P (xs ! h) \<Longrightarrow>
   length (filter P (xs[h := v])) = length (filter P xs) + (if P v then 1 else 0)"
proof (induction xs arbitrary: h)
  case Nil
  then show ?case by simp
next
  case (Cons x xs)
  then show ?case by (cases h) auto
qed

lemma register_with_one_write: "length (writes (snd (register_with a now g s))) = 1"
  by (simp add: register_with_def Let_def split: option.splits)

lemma delay_elapsed_writes:
  "length (writes (fst (snd (delay_elapsed p a now s)))) =
     (if snd (snd (delay_elapsed p a now s)) = Finished then 1 else 0) \<and>
   snd (snd (delay_elapsed p a now s)) \<noteq> AwaitDelay"
  by (simp add: delay_elapsed_def register_with_one_write split: parsed.splits option.splits)

lemma step_count:
  assumes "n < length (sessions w)"
  shows "length (writes (if target e = Some n then snd (step e w) else [])) + finished n w =
         (if e = SockTimeout n then 1 else 0) + finished n (fst (step e w))"
proof (cases e)
  case (Connection ra now)
  then show ?thesis
    using assms sessions_step_Connection [of ra now w]
    by (auto simp del: step.simps simp add: finished_def nth_append)
next
  case (SockTimeout m)
  then show ?thesis using assms by (auto simp: finished_def on_timeout_def)
next
  case (SockData m chunk)
  then show ?thesis using assms
    by (cases "m = n") (auto simp: finished_def on_data_def Let_def)
next
  case (DelayElapsed m h p)
  then show ?thesis
    using assms
      delay_elapsed_writes [of p "s_ip (sessions w ! m)" "s_now (sessions w ! m)" "srv w"]
    by (cases "m = n")
       (auto simp add: step_DelayElapsed finished_def count_update awaits_def simp del: step.simps)
next
  case (GeoReturned m h r)
  then show ?thesis
    using assms
      register_with_one_write [of "s_ip (sessions w ! m)" "s_now (sessions w ! m)" _ "srv w"]
    by (cases "m = n")
       (auto simp add: step_GeoReturned finished_def count_update geo_returned_def awaits_def
          simp del: step.simps)
qed (simp_all add: finished_def)


lemma session_calls_Cons_block:
  "\<exists>b. block b \<and> session_calls n w (e # es) = b @ session_calls n (fst (step e w)) es \<and>
       length (writes b) + finished n w =
         (if n < length (sessions w) then (if e = SockTimeout n then 1 else 0) + finished n (fst (step e w))
          else length (writes b) + finished n w)"
  using step_block [of e n w] step_count [of n w e]
  by (auto simp del: step.simps simp add: block_def)

text \<open>
  Claim C2, as amended.  On the socket of an admitted connection every reaction that
  reaches a terminal path (idle timeout, oversized payload, parse error, unknown action,
  unregister, heartbeat, register success, geolocation failure) makes exactly one
  \<open>sock.write\<close> and then ends the socket.  So every write is followed at once by an
  end, at most one response is written before the first end, and the number of
  responses written during any run of events is the number of idle timeouts plus the
  number of runs of the data handler that finished: one per timeout and per finished
  run, not one per connection.
\<close>

theorem one_write_per_handler_run:
  assumes "n < length (sessions w)"
  shows "paired (session_calls n w evs) \<and>
         length (writes (takeWhile (\<lambda>c. c \<noteq> End) (session_calls n w evs))) \<le> 1 \<and>
         length (writes (session_calls n w evs)) + finished n w =
           timeouts n evs + finished n (run w evs)"
  using assms
proof (induction evs arbitrary: w)
  case Nil
  then show ?case by (simp add: timeouts_def)
next
  case (Cons e es)
  obtain b where b: "block b"
    "session_calls n w (e # es) = b @ session_calls n (fst (step e w)) es"
    "length (writes b) + finished n w =
       (if e = SockTimeout n then 1 else 0) + finished n (fst (step e w))"
    using session_calls_Cons_block [of n w e es] Cons.prems by auto
  have n': "n < length (sessions (fst (step e w)))"
    using Cons.prems length_sessions_step [of w e] by simp
  note IH = Cons.IH [OF n']
  have 1: "paired (session_calls n w (e # es))"
    using b(1,2) IH by (simp add: paired_append block_paired del: session_calls.simps)
  have 2: "length (writes (takeWhile (\<lambda>c. c \<noteq> End) (session_calls n w (e # es)))) \<le> 1"
  proof (cases "b = []")
    case True
    then show ?thesis using b(2) IH by (simp del: session_calls.simps)
  next
    case False
    then show ?thesis
      using block_before_end [OF b(1) False, of "session_calls n (fst (step e w)) es"] b(2)
      by (simp del: session_calls.simps)
  qed
  have 3: "length (writes (session_calls n w (e # es))) + finished n w =
           timeouts n (e # es) + finished n (run w (e # es))"
  proof -
    have ih: "length (writes (session_calls n (fst (step e w)) es)) + finished n (fst (step e w)) =
              timeouts n es + finished n (run (fst (step e w)) es)"
      using IH by blast
    have t: "timeouts n (e # es) = (if e = SockTimeout n then 1 else 0) + timeouts n es"
      by (simp add: timeouts_def)
    have r: "run w (e # es) = run (fst (step e w)) es"
      by simp
    have l: "length (writes (session_calls n w (e # es))) =
             length (writes b) + length (writes (session_calls n (fst (step e w)) es))"
      by (simp only: b(2) writes_append length_append)
    show ?thesis
      unfolding r t l using ih b(3) by linarith
  qed
  show ?case using 1 2 3 by blast
qed

theorem one_write_per_handler_run_witness:
  "0 < length (sessions (run init (take 3 two_chunks))) \<and>
   paired (session_calls 0 (run init (take 3 two_chunks)) (drop 3 two_chunks)) \<and>
   length (writes (session_calls 0 (run init (take 3 two_chunks)) (drop 3 two_chunks))) = 2"
proof -
  have 1: "0 < length (sessions (run init (take 3 two_chunks)))"
    by (simp add: two_chunks_def init_def connection_def Let_def RATE_LIMIT_def
      MAX_CONN_PER_SECOND_def on_data_def)
  have 2: "finished 0 (run init (take 3 two_chunks)) = 0"
    by (simp add: two_chunks_def init_def connection_def Let_def RATE_LIMIT_def
      MAX_CONN_PER_SECOND_def on_data_def finished_def)
  have 3: "finished 0 (run (run init (take 3 two_chunks)) (drop 3 two_chunks)) = 2"
    by (simp add: two_chunks_def init_def connection_def Let_def RATE_LIMIT_def
      MAX_CONN_PER_SECOND_def on_data_def finished_def delay_elapsed_def awaits_def)
  have 4: "timeouts 0 (drop 3 two_chunks) = 0"
    by (simp add: two_chunks_def timeouts_def)
  show ?thesis
    using one_write_per_handler_run [OF 1, of "drop 3 two_chunks"] 1 2 3 4 by simp
qed

text \<open>
  Claim C2 as stated fails.  The source keeps no flag for a response already sent and
  removes no listener, so when the payload arrives in two chunks each chunk starts its
  own run of the handler and each run writes a response: the connection gets two
  \<open>sock.write\<close> calls, the second one after \<open>sock.end\<close>.
\<close>

theorem second_chunk_second_response:
  "session_calls 0 init two_chunks =
     [Write (buildResponse ERROR_INVALID_JSON None), End,
      Write (buildResponse ERROR_INVALID_JSON None), End] \<and>
   length (writes (session_calls 0 init two_chunks)) = 2"
  by (simp add: two_chunks_def init_def connection_def Let_def RATE_LIMIT_def
      MAX_CONN_PER_SECOND_def on_data_def delay_elapsed_def awaits_def)

subsection \<open>The register action\<close>

lemmas eval_defs =
  init_def connection_def Let_def RATE_LIMIT_def WINDOW_MS_def MAX_CONN_PER_SECOND_def
  on_data_def awaits_def register_msg_def isPrivateIP_def startsWith_def getGeo_def

lemma step_register_no_record:
  assumes "awaits w n h AwaitDelay"
    and "map_of (peerRecord (srv w)) (s_ip (sessions w ! n)) = None"
  shows "step (DelayElapsed n h (Action ''register'')) w =
    (w\<lparr>sessions := (sessions w)[n := (sessions w ! n)\<lparr>handlers :=
         (handlers (sessions w ! n))[h := AwaitGeo]\<rparr>]\<rparr>, [])"
  using assms by (simp add: step_DelayElapsed delay_elapsed_def del: step.simps)

lemma awaits_after_update:
  "awaits w n h st \<Longrightarrow>
   awaits (w\<lparr>sessions := (sessions w)[n := (sessions w ! n)\<lparr>handlers :=
         (handlers (sessions w ! n))[h := st']\<rparr>]\<rparr>) n h st'"
  by (simp add: awaits_def)

lemma step_geo_failed:
  assumes "awaits w n h AwaitGeo"
    and "getGeo (s_ip (sessions w ! n)) r = None"
  shows "step (GeoReturned n h r) w =
    (w\<lparr>sessions := (sessions w)[n := (sessions w ! n)\<lparr>handlers :=
         (handlers (sessions w ! n))[h := Finished]\<rparr>]\<rparr>,
     [Write (buildResponse ERROR_GEO_LOOKUP_FAILED None), End, End])"
  using assms by (simp add: step_GeoReturned geo_returned_def register_with_def del: step.simps)

lemma failed_register_run:
  assumes "awaits w n h AwaitDelay"
    and "map_of (peerRecord (srv w)) (s_ip (sessions w ! n)) = None"
    and "getGeo (s_ip (sessions w ! n)) r = None"
  shows "run w [DelayElapsed n h (Action ''register''), GeoReturned n h r] =
           w\<lparr>sessions := (sessions w)[n := (sessions w ! n)\<lparr>handlers :=
             (handlers (sessions w ! n))[h := Finished]\<rparr>]\<rparr>"
    and "session_calls n w [DelayElapsed n h (Action ''register''), GeoReturned n h r] =
           [Write (buildResponse ERROR_GEO_LOOKUP_FAILED None), End, End]"
proof -
  let ?w1 = "w\<lparr>sessions := (sessions w)[n := (sessions w ! n)\<lparr>handlers :=
         (handlers (sessions w ! n))[h := AwaitGeo]\<rparr>]\<rparr>"
  have n: "n < length (sessions w)" using assms(1) by (simp add: awaits_def)
  have 1: "step (DelayElapsed n h (Action ''register'')) w = (?w1, [])"
    by (rule step_register_no_record [OF assms(1,2)])
  have a: "awaits ?w1 n h AwaitGeo"
    by (rule awaits_after_update [OF assms(1)])
  have g: "getGeo (s_ip (sessions ?w1 ! n)) r = None"
    using assms(3) n by simp
  note 2 = step_geo_failed [OF a g]
  show "run w [DelayElapsed n h (Action ''register''), GeoReturned n h r] =
           w\<lparr>sessions := (sessions w)[n := (sessions w ! n)\<lparr>handlers :=
             (handlers (sessions w ! n))[h := Finished]\<rparr>]\<rparr>"
    using n by (simp add: 1 2 del: step.simps)
  show "session_calls n w [DelayElapsed n h (Action ''register''), GeoReturned n h r] =
           [Write (buildResponse ERROR_GEO_LOOKUP_FAILED None), End, End]"
    by (simp add: 1 2 del: step.simps)
qed

lemma first_register_world:
  "run init first_register =
     \<lparr>srv = \<lparr>peerRecord = [], clientRecord = [''8.8.8.8'' \<mapsto> [1000]], banList = Map.empty,
             globalRequestCount = 1\<rparr>,
      sessions = [\<lparr>s_ip = ''8.8.8.8'', s_now = 1000, dataBuffer = register_msg,
                   handlers = [AwaitDelay]\<rparr>]\<rparr>"
  by (simp add: first_register_def eval_defs)

lemma second_register_world:
  "run init second_register =
     \<lparr>srv = \<lparr>peerRecord = [(''8.8.8.8'', \<lparr>geo = \<lparr>latitude = 10, longitude = 20\<rparr>,
                                         firstSeen = 1000, lastSeen = 1000\<rparr>)],
             clientRecord = [''8.8.8.8'' \<mapsto> [1000, 5000]], banList = Map.empty,
             globalRequestCount = 2\<rparr>,
      sessions = [\<lparr>s_ip = ''8.8.8.8'', s_now = 1000, dataBuffer = register_msg,
                   handlers = [Finished]\<rparr>,
                  \<lparr>s_ip = ''8.8.8.8'', s_now = 5000, dataBuffer = register_msg,
                   handlers = [AwaitDelay]\<rparr>]\<rparr>"
proof -
  let ?c1 = "[''8.8.8.8'' \<mapsto> [1000::int]]"
  let ?c2 = "[''8.8.8.8'' \<mapsto> [1000::int, 5000]]"
  let ?p = "[(''8.8.8.8'', \<lparr>geo = \<lparr>latitude = 10, longitude = 20\<rparr>,
                           firstSeen = 1000, lastSeen = 1000\<rparr>)]"
  let ?W1 = "\<lparr>srv = \<lparr>peerRecord = [], clientRecord = ?c1, banList = Map.empty,
                       globalRequestCount = 1\<rparr>,
              sessions = [\<lparr>s_ip = ''8.8.8.8'', s_now = 1000, dataBuffer = register_msg,
                           handlers = [AwaitDelay]\<rparr>]\<rparr>"
  let ?W2 = "\<lparr>srv = \<lparr>peerRecord = [], clientRecord = ?c1, banList = Map.empty,
                       globalRequestCount = 1\<rparr>,
              sessions = [\<lparr>s_ip = ''8.8.8.8'', s_now = 1000, dataBuffer = register_msg,
                           handlers = [AwaitGeo]\<rparr>]\<rparr>"
  let ?W3 = "\<lparr>srv = \<lparr>peerRecord = ?p, clientRecord = ?c1, banList = Map.empty,
                       globalRequestCount = 1\<rparr>,
              sessions = [\<lparr>s_ip = ''8.8.8.8'', s_now = 1000, dataBuffer = register_msg,
                           handlers = [Finished]\<rparr>]\<rparr>"
  let ?W4 = "\<lparr>srv = \<lparr>peerRecord = ?p, clientRecord = ?c2, banList = Map.empty,
                       globalRequestCount = 2\<rparr>,
              sessions = [\<lparr>s_ip = ''8.8.8.8'', s_now = 1000, dataBuffer = register_msg,
                           handlers = [Finished]\<rparr>,
                          \<lparr>s_ip = ''8.8.8.8'', s_now = 5000, dataBuffer = [],
                           handlers = []\<rparr>]\<rparr>"
  let ?W5 = "\<lparr>srv = \<lparr>peerRecord = ?p, clientRecord = ?c2, banList = Map.empty,
                       globalRequestCount = 2\<rparr>,
              sessions = [\<lparr>s_ip = ''8.8.8.8'', s_now = 1000, dataBuffer = register_msg,
                           handlers = [Finished]\<rparr>,
                          \<lparr>s_ip = ''8.8.8.8'', s_now = 5000, dataBuffer = register_msg,
                           handlers = [AwaitDelay]\<rparr>]\<rparr>"
  have 1: "run init first_register = ?W1"
    by (rule first_register_world)
  have 2: "fst (step (DelayElapsed 0 0 (Action ''register'')) ?W1) = ?W2"
    by (simp add: awaits_def delay_elapsed_def)
  have 3: "fst (step (GeoReturned 0 0 (ResData (Some 10) (Some 20))) ?W2) = ?W3"
    by (simp add: awaits_def geo_returned_def register_with_def getGeo_def isPrivateIP_def
        startsWith_def)
  have 4: "fst (step (Connection (Some ''8.8.8.8'') 5000) ?W3) = ?W4"
    by (simp add: connection_def Let_def RATE_LIMIT_def WINDOW_MS_def MAX_CONN_PER_SECOND_def)
  have 5: "fst (step (SockData 1 register_msg) ?W4) = ?W5"
    by (simp add: on_data_def register_msg_def)
  show ?thesis
    unfolding second_register_def
    by (simp only: run_append run.simps 1 2 3 4 5)
qed

text \<open>
  Claim C5.  A run of the data handler resumes after its delay with a register message
  while the address has no record, so it waits for \<open>getGeo\<close>, and \<open>getGeo\<close> returns
  null.  Then the response is \<open>ERROR_GEO_LOOKUP_FAILED\<close>, status 2006, and the server
  state, the peer registry in it, is what it was: no record is created or updated.
  The last part says the same of the second reaction alone, in whatever state the
  answer of the provider finds the server.
\<close>

theorem geo_failure_leaves_registry:
  assumes "awaits w n h AwaitDelay"
    and "map_of (peerRecord (srv w)) (s_ip (sessions w ! n)) = None"
    and "getGeo (s_ip (sessions w ! n)) r = None"
  shows "session_calls n w [DelayElapsed n h (Action ''register''), GeoReturned n h r] =
           [Write (buildResponse ERROR_GEO_LOOKUP_FAILED None), End, End] \<and>
         statusCode (buildResponse ERROR_GEO_LOOKUP_FAILED None) = 2006 \<and>
         srv (fst (step (DelayElapsed n h (Action ''register'')) w)) = srv w \<and>
         srv (run w [DelayElapsed n h (Action ''register''), GeoReturned n h r]) = srv w \<and>
         (\<forall>w'. awaits w' n h AwaitGeo \<and> s_ip (sessions w' ! n) = s_ip (sessions w ! n) \<longrightarrow>
            srv (fst (step (GeoReturned n h r) w')) = srv w' \<and>
            snd (step (GeoReturned n h r) w') =
              [Write (buildResponse ERROR_GEO_LOOKUP_FAILED None), End, End])"
proof -
  have "\<And>w'. awaits w' n h AwaitGeo \<Longrightarrow> s_ip (sessions w' ! n) = s_ip (sessions w ! n) \<Longrightarrow>
            srv (fst (step (GeoReturned n h r) w')) = srv w' \<and>
            snd (step (GeoReturned n h r) w') =
              [Write (buildResponse ERROR_GEO_LOOKUP_FAILED None), End, End]"
    using assms(3) by (simp add: step_geo_failed del: step.simps)
  then show ?thesis
    using failed_register_run [OF assms] step_register_no_record [OF assms(1,2)]
    by (simp add: buildResponse_def ERROR_GEO_LOOKUP_FAILED_def del: step.simps run.simps session_calls.simps)
qed

theorem geo_failure_leaves_registry_witness:
  "awaits (run init first_register) 0 0 AwaitDelay \<and>
   map_of (peerRecord (srv (run init first_register)))
     (s_ip (sessions (run init first_register) ! 0)) = None \<and>
   getGeo (s_ip (sessions (run init first_register) ! 0)) Threw = None \<and>
   session_calls 0 (run init first_register)
       [DelayElapsed 0 0 (Action ''register''), GeoReturned 0 0 Threw] =
     [Write (buildResponse ERROR_GEO_LOOKUP_FAILED None), End, End] \<and>
   srv (run (run init first_register)
       [DelayElapsed 0 0 (Action ''register''), GeoReturned 0 0 Threw]) =
     srv (run init first_register)"
proof -
  have 1: "awaits (run init first_register) 0 0 AwaitDelay"
    by (simp add: first_register_world awaits_def)
  have 2: "map_of (peerRecord (srv (run init first_register)))
     (s_ip (sessions (run init first_register) ! 0)) = None"
    by (simp add: first_register_world)
  have 3: "getGeo (s_ip (sessions (run init first_register) ! 0)) Threw = None"
    by (simp add: first_register_world getGeo_def isPrivateIP_def startsWith_def)
  show ?thesis
    using geo_failure_leaves_registry [OF 1 2 3] 1 2 3 by blast
qed

text \<open>
  Claim C6.  A run of the data handler resumes after its delay with a register message
  while the address has a record \<open>info\<close>.  The reaction itself stores the record with
  the coordinate of \<open>info\<close> and with \<open>firstSeen\<close> and \<open>lastSeen\<close> both set to the time
  the connection was accepted, and answers \<open>SUCCESS_REGISTER\<close> with the peers ranked
  from that coordinate.  The run is finished by this reaction: it never waits for
  \<open>getGeo\<close>, and an answer of the provider addressed to it changes nothing.
\<close>

theorem reregister_reuses_geo:
  assumes "awaits w n h AwaitDelay"
    and "map_of (peerRecord (srv w)) (s_ip (sessions w ! n)) = Some info"
  shows "map_of (peerRecord (srv (fst (step (DelayElapsed n h (Action ''register'')) w))))
           (s_ip (sessions w ! n)) =
           Some \<lparr>geo = geo info, firstSeen = s_now (sessions w ! n),
                 lastSeen = s_now (sessions w ! n)\<rparr> \<and>
         snd (step (DelayElapsed n h (Action ''register'')) w) =
           [Write (buildResponse SUCCESS_REGISTER
              (Some (s_ip (sessions w ! n),
                 sendPeers (geo info)
                   (peerRecord (srv (fst (step (DelayElapsed n h (Action ''register'')) w))))))),
            End] \<and>
         awaits (fst (step (DelayElapsed n h (Action ''register'')) w)) n h Finished \<and>
         (\<forall>r. step (GeoReturned n h r) (fst (step (DelayElapsed n h (Action ''register'')) w)) =
               (fst (step (DelayElapsed n h (Action ''register'')) w), []))"
proof -
  let ?a = "s_ip (sessions w ! n)"
  let ?now = "s_now (sessions w ! n)"
  let ?s' = "(srv w)\<lparr>peerRecord :=
     AList.update ?a \<lparr>geo = geo info, firstSeen = ?now, lastSeen = ?now\<rparr> (peerRecord (srv w))\<rparr>"
  let ?w' = "\<lparr>srv = ?s', sessions = (sessions w)[n := (sessions w ! n)\<lparr>handlers :=
         (handlers (sessions w ! n))[h := Finished]\<rparr>]\<rparr>"
  have st: "step (DelayElapsed n h (Action ''register'')) w =
    (?w', [Write (buildResponse SUCCESS_REGISTER (Some (?a, sendPeers (geo info) (peerRecord ?s')))), End])"
    using assms
    by (simp add: step_DelayElapsed delay_elapsed_def register_with_def Let_def del: step.simps)
  have fin: "awaits ?w' n h Finished"
    using assms(1) by (simp add: awaits_def)
  then have "\<not> awaits ?w' n h AwaitGeo"
    by (simp add: awaits_def)
  then have no: "\<And>r. step (GeoReturned n h r) ?w' = (?w', [])"
    by (simp add: step_GeoReturned del: step.simps)
  show ?thesis
    unfolding st fst_conv snd_conv
    using fin no by (simp add: update_conv' del: step.simps)
qed

theorem reregister_reuses_geo_witness:
  "awaits (run init second_register) 1 0 AwaitDelay \<and>
   map_of (peerRecord (srv (run init second_register)))
       (s_ip (sessions (run init second_register) ! 1)) =
     Some \<lparr>geo = \<lparr>latitude = 10, longitude = 20\<rparr>, firstSeen = 1000, lastSeen = 1000\<rparr> \<and>
   map_of (peerRecord (srv (fst (step (DelayElapsed 1 0 (Action ''register''))
       (run init second_register))))) ''8.8.8.8'' =
     Some \<lparr>geo = \<lparr>latitude = 10, longitude = 20\<rparr>, firstSeen = 5000, lastSeen = 5000\<rparr>"
proof -
  have 1: "awaits (run init second_register) 1 0 AwaitDelay"
    by (simp add: second_register_world awaits_def)
  have 2: "map_of (peerRecord (srv (run init second_register)))
       (s_ip (sessions (run init second_register) ! 1)) =
     Some \<lparr>geo = \<lparr>latitude = 10, longitude = 20\<rparr>, firstSeen = 1000, lastSeen = 1000\<rparr>"
    by (simp add: second_register_world)
  have 3: "s_ip (sessions (run init second_register) ! 1) = ''8.8.8.8''"
      "s_now (sessions (run init second_register) ! 1) = 5000"
    by (simp_all add: second_register_world)
  show ?thesis
    using reregister_reuses_geo [OF 1 2] 1 2 unfolding 3 by simp
qed

text \<open>
  Claim C10.  For an address that \<open>isPrivateIP\<close> rejects, a provider answer whose
  latitude or longitude is zero or absent makes \<open>getGeo\<close> return null, as a thrown
  request does.  A register of such an address without a record then ends with
  \<open>ERROR_GEO_LOOKUP_FAILED\<close>, status 2006, and leaves the same state and the same
  socket calls as the register whose request threw (which differs by a line in the
  error log only).
\<close>

theorem zero_coordinate_is_failure:
  assumes "\<not> isPrivateIP a"
    and "la = None \<or> la = Some 0 \<or> lo = None \<or> lo = Some 0"
  shows "getGeo a (ResData la lo) = None \<and>
         getGeo a (ResData la lo) = getGeo a Threw \<and>
         (\<forall>w n h. awaits w n h AwaitDelay \<and> s_ip (sessions w ! n) = a \<and>
                   map_of (peerRecord (srv w)) a = None \<longrightarrow>
            session_calls n w
                [DelayElapsed n h (Action ''register''), GeoReturned n h (ResData la lo)] =
              [Write (buildResponse ERROR_GEO_LOOKUP_FAILED None), End, End] \<and>
            statusCode (buildResponse ERROR_GEO_LOOKUP_FAILED None) = 2006 \<and>
            run w [DelayElapsed n h (Action ''register''), GeoReturned n h (ResData la lo)] =
              run w [DelayElapsed n h (Action ''register''), GeoReturned n h Threw] \<and>
            session_calls n w
                [DelayElapsed n h (Action ''register''), GeoReturned n h (ResData la lo)] =
              session_calls n w
                [DelayElapsed n h (Action ''register''), GeoReturned n h Threw])"
proof -
  have g: "getGeo a (ResData la lo) = None"
    using assms by (auto simp: getGeo_def split: option.splits)
  have t: "getGeo a Threw = None"
    using assms(1) by (simp add: getGeo_def)
  have st: "statusCode (buildResponse ERROR_GEO_LOOKUP_FAILED None) = 2006"
    by (simp add: buildResponse_def ERROR_GEO_LOOKUP_FAILED_def)
  have both: "session_calls n w [DelayElapsed n h (Action ''register''), GeoReturned n h r] =
                [Write (buildResponse ERROR_GEO_LOOKUP_FAILED None), End, End] \<and>
              run w [DelayElapsed n h (Action ''register''), GeoReturned n h r] =
                w\<lparr>sessions := (sessions w)[n := (sessions w ! n)\<lparr>handlers :=
                   (handlers (sessions w ! n))[h := Finished]\<rparr>]\<rparr>"
    if "awaits w n h AwaitDelay" "s_ip (sessions w ! n) = a"
       "map_of (peerRecord (srv w)) a = None" "getGeo a r = None" for w n h r
    using failed_register_run [of w n h r] that by simp
  show ?thesis
  proof (intro conjI allI impI)
    show "getGeo a (ResData la lo) = None" by (rule g)
    show "getGeo a (ResData la lo) = getGeo a Threw" by (simp only: g t)
  next
    fix w n h
    assume "awaits w n h AwaitDelay \<and> s_ip (sessions w ! n) = a \<and>
            map_of (peerRecord (srv w)) a = None"
    then have p: "awaits w n h AwaitDelay" "s_ip (sessions w ! n) = a"
       "map_of (peerRecord (srv w)) a = None" by blast+
    note A = both [OF p g] and B = both [OF p t]
    show "session_calls n w
            [DelayElapsed n h (Action ''register''), GeoReturned n h (ResData la lo)] =
          [Write (buildResponse ERROR_GEO_LOOKUP_FAILED None), End, End]"
      using A by blast
    show "statusCode (buildResponse ERROR_GEO_LOOKUP_FAILED None) = 2006" by (rule st)
    show "run w [DelayElapsed n h (Action ''register''), GeoReturned n h (ResData la lo)] =
          run w [DelayElapsed n h (Action ''register''), GeoReturned n h Threw]"
      using A B by (simp only:)
    show "session_calls n w
            [DelayElapsed n h (Action ''register''), GeoReturned n h (ResData la lo)] =
          session_calls n w
            [DelayElapsed n h (Action ''register''), GeoReturned n h Threw]"
      using A B by (simp only:)
  qed
qed

theorem zero_coordinate_is_failure_witness:
  "\<not> isPrivateIP ''8.8.8.8'' \<and>
   getGeo ''8.8.8.8'' (ResData (Some 0) (Some 20)) = None \<and>
   awaits (run init first_register) 0 0 AwaitDelay \<and>
   s_ip (sessions (run init first_register) ! 0) = ''8.8.8.8'' \<and>
   map_of (peerRecord (srv (run init first_register))) ''8.8.8.8'' = None \<and>
   session_calls 0 (run init first_register)
       [DelayElapsed 0 0 (Action ''register''), GeoReturned 0 0 (ResData (Some 0) (Some 20))] =
     [Write (buildResponse ERROR_GEO_LOOKUP_FAILED None), End, End]"
proof -
  have 1: "\<not> isPrivateIP ''8.8.8.8''"
    by (simp add: isPrivateIP_def startsWith_def)
  have 2: "Some (0::real) = None \<or> Some (0::real) = Some 0 \<or> Some (20::real) = None \<or> Some (20::real) = Some 0"
    by simp
  have 3: "awaits (run init first_register) 0 0 AwaitDelay \<and>
     s_ip (sessions (run init first_register) ! 0) = ''8.8.8.8'' \<and>
     map_of (peerRecord (srv (run init first_register))) ''8.8.8.8'' = None"
    by (simp add: first_register_world awaits_def)
  show ?thesis
    using zero_coordinate_is_failure [OF 1 2] 1 3 by blast
qed

subsection \<open>The peer list and the registry\<close>

lemma set_insert_cmp: "set (insert_cmp c x xs) = insert x (set xs)"
  by (induction xs) auto

lemma set_sort_cmp: "set (sort_cmp c xs) = set xs"
  by (induction xs) (simp_all add: sort_cmp_def set_insert_cmp)

lemma length_insert_cmp: "length (insert_cmp c x xs) = Suc (length xs)"
  by (induction xs) auto

lemma length_sort_cmp: "length (sort_cmp c xs) = length xs"
  by (induction xs) (simp_all add: sort_cmp_def length_insert_cmp)

lemma sorted_insert_cmp:
  "sorted_wrt (\<lambda>a b. f a \<le> f b) xs \<Longrightarrow>
   sorted_wrt (\<lambda>a b. f a \<le> f b) (insert_cmp (\<lambda>a b. f a - f b) x xs)"
  by (induction xs) (auto simp: set_insert_cmp)

lemma sorted_sort_cmp: "sorted_wrt (\<lambda>a b. f a \<le> f b) (sort_cmp (\<lambda>a b. f a - f b) xs)"
  by (induction xs) (simp_all add: sort_cmp_def sorted_insert_cmp)

lemma sorted_wrt_take: "sorted_wrt P xs \<Longrightarrow> sorted_wrt P (take n xs)"
  by (induction xs arbitrary: n) (auto simp: take_Cons' dest: in_set_takeD)

text \<open>
  In exact real arithmetic the list sent to a registrant is in non-decreasing order of
  \<open>distance\<close> from the registrant's coordinate.  The program computes \<open>distance\<close> in
  doubles; what rounding does to the order is not stated here.
\<close>

lemma sendPeers_sorted_exact:
  "sorted_wrt (\<lambda>a b. distance a g \<le> distance b g) (sendPeers g pr)"
  unfolding sendPeers_def
  by (rule sorted_wrt_take) (rule sorted_sort_cmp [of "\<lambda>a. distance a g"])

lemma sendPeers_subset: "set (sendPeers g pr) \<subseteq> set (entries pr)"
  using set_take_subset [of RESPONSE_PEER_LIMIT "sort_cmp (\<lambda>a b. distance a g - distance b g) (entries pr)"]
  by (simp add: sendPeers_def set_sort_cmp)

lemma entries_iff:
  "p \<in> set (entries pr) \<longleftrightarrow>
     (\<exists>k v. (k, v) \<in> set pr \<and> latitude (geo v) \<noteq> 0 \<and> longitude (geo v) \<noteq> 0 \<and>
        p = \<lparr>latitude = latitude (geo v), longitude = longitude (geo v), ip = k\<rparr>)"
  by (auto simp: entries_def)

lemma sendPeers_length: "length (sendPeers g pr) \<le> RESPONSE_PEER_LIMIT"
  by (simp add: sendPeers_def)

lemma sendPeers_nonzero:
  assumes "p \<in> set (sendPeers g pr)"
  shows "latitude p \<noteq> 0 \<and> longitude p \<noteq> 0"
proof -
  have "p \<in> set (entries pr)" using assms sendPeers_subset [of g pr] by blast
  then show ?thesis by (auto simp: entries_iff)
qed

lemma sendPeers_keys:
  assumes "p \<in> set (sendPeers g pr)"
  shows "ip p \<in> fst ` set pr"
proof -
  have "p \<in> set (entries pr)" using assms sendPeers_subset [of g pr] by blast
  then show ?thesis by (force simp: entries_iff)
qed

lemma set_update_subset: "set (AList.update k v al) \<subseteq> insert (k, v) (set al)"
  by (induction al) auto

lemma set_delete_subset: "set (AList.delete k pr) \<subseteq> set pr"
  by (auto simp: AList.delete_eq)

lemma set_sweep_loop_subset: "set (sweep_loop now es pr) \<subseteq> set pr"
proof (induction es arbitrary: pr)
  case Nil
  then show ?case by simp
next
  case (Cons e es)
  obtain k info where e: "e = (k, info)" by (cases e)
  show ?case
    using Cons.IH [of "AList.delete k pr"] Cons.IH [of pr] set_delete_subset [of k pr]
    by (auto simp: e)
qed

lemma connection_peerRecord: "peerRecord (snd (connection ra now s)) = peerRecord s"
  by (simp add: connection_def Let_def split: option.splits)

lemma connection_refused_peers: "fst (connection ra now s) = Refused r \<Longrightarrow> peers r = None"
  by (auto simp: connection_def Let_def buildResponse_def split: option.splits if_splits)

lemma step_Connection_calls:
  "snd (step (Connection ra now) w) = [] \<or> snd (step (Connection ra now) w) = [End] \<or>
   (\<exists>r. snd (step (Connection ra now) w) = [Write r, End] \<and> peers r = None)"
proof (cases "connection ra now (srv w)")
  case (Pair out s')
  then show ?thesis
    using connection_refused_peers [of ra now "srv w"]
    by (cases out) simp_all
qed


subsection \<open>Private addresses\<close>

lemma sendPeers_no_private:
  assumes "private_dummy pr" and "p \<in> set (sendPeers g pr)"
  shows "\<not> isPrivateIP (ip p)"
proof -
  have "p \<in> set (entries pr)" using assms(2) sendPeers_subset [of g pr] by blast
  then show ?thesis using assms(1) by (fastforce simp: entries_iff private_dummy_def)
qed

lemma private_dummy_update:
  "private_dummy pr \<Longrightarrow> (isPrivateIP a \<Longrightarrow> geo v = \<lparr>latitude = 0, longitude = 0\<rparr>) \<Longrightarrow>
   private_dummy (AList.update a v pr)"
  using set_update_subset [of a v pr] by (fastforce simp: private_dummy_def)

lemma private_dummy_subset:
  "private_dummy pr \<Longrightarrow> set pr' \<subseteq> set pr \<Longrightarrow> private_dummy pr'"
  by (auto simp: private_dummy_def)

lemma getGeo_private: "isPrivateIP a \<Longrightarrow> getGeo a r = Some \<lparr>latitude = 0, longitude = 0\<rparr>"
  by (simp add: getGeo_def)

lemma register_with_private:
  assumes "private_dummy (peerRecord s)"
    and "\<And>gv. g = Some gv \<Longrightarrow> isPrivateIP a \<Longrightarrow> gv = \<lparr>latitude = 0, longitude = 0\<rparr>"
  shows "private_dummy (peerRecord (fst (register_with a now g s))) \<and>
         no_private_listed (snd (register_with a now g s))"
proof (cases g)
  case None
  then show ?thesis using assms(1)
    by (simp add: register_with_def no_private_listed_def buildResponse_def)
next
  case (Some gv)
  let ?pr = "AList.update a \<lparr>geo = gv, firstSeen = now, lastSeen = now\<rparr> (peerRecord s)"
  have pd: "private_dummy ?pr"
    using assms(1) assms(2) [OF Some] by (simp add: private_dummy_update)
  then show ?thesis
    using Some sendPeers_no_private [OF pd]
    by (auto simp: register_with_def Let_def no_private_listed_def buildResponse_def)
qed

lemma map_of_private:
  "private_dummy pr \<Longrightarrow> map_of pr a = Some info \<Longrightarrow> isPrivateIP a \<Longrightarrow>
   geo info = \<lparr>latitude = 0, longitude = 0\<rparr>"
  by (auto simp: private_dummy_def dest: map_of_SomeD)

lemma delay_elapsed_private:
  assumes "private_dummy (peerRecord s)"
  shows "private_dummy (peerRecord (fst (delay_elapsed p a now s))) \<and>
         no_private_listed (fst (snd (delay_elapsed p a now s)))"
proof (cases "p = Action ''register'' \<and> map_of (peerRecord s) a \<noteq> None")
  case True
  then obtain info where i: "map_of (peerRecord s) a = Some info" by auto
  show ?thesis
    using True i register_with_private [OF assms, of "Some (geo info)" a now]
      map_of_private [OF assms i]
    by (simp add: delay_elapsed_def)
next
  case False
  then show ?thesis
    using assms private_dummy_subset [OF assms set_delete_subset]
      map_of_private [OF assms]
    by (auto simp: delay_elapsed_def no_private_listed_def buildResponse_def
        private_dummy_update split: parsed.splits option.splits)
qed

lemma no_private_listed_append:
  "no_private_listed (xs @ ys) \<longleftrightarrow> no_private_listed xs \<and> no_private_listed ys"
  by (auto simp: no_private_listed_def)

lemma step_private:
  assumes "private_dummy (peerRecord (srv w))"
  shows "private_dummy (peerRecord (srv (fst (step e w)))) \<and> no_private_listed (snd (step e w))"
proof (cases e)
  case (Connection ra now)
  then show ?thesis
    using assms step_Connection_calls [of ra now w]
    by (auto simp del: step.simps simp add: srv_step_cases connection_peerRecord
        no_private_listed_def)
next
  case ResetCounter
  then show ?thesis using assms by (simp add: no_private_listed_def)
next
  case (Sweep t)
  then show ?thesis
    using private_dummy_subset [OF assms set_sweep_loop_subset]
    by (simp add: no_private_listed_def sweep_def)
next
  case (SockTimeout n)
  then show ?thesis using assms
    by (simp add: no_private_listed_def on_timeout_def buildResponse_def)
next
  case (SockData n chunk)
  then show ?thesis using assms
    by (simp add: no_private_listed_def on_data_def Let_def buildResponse_def)
next
  case (DelayElapsed n h p)
  then show ?thesis
    using assms delay_elapsed_private [OF assms]
    by (simp add: step_DelayElapsed no_private_listed_def del: step.simps)
next
  case (GeoReturned n h r)
  then show ?thesis
    using assms register_with_private [OF assms, of "getGeo (s_ip (sessions w ! n)) r"
        "s_ip (sessions w ! n)" "s_now (sessions w ! n)"] getGeo_private
    by (simp add: step_GeoReturned geo_returned_def no_private_listed_def del: step.simps)
qed

lemma run_private:
  "private_dummy (peerRecord (srv w)) \<Longrightarrow>
   private_dummy (peerRecord (srv (run w evs))) \<and> no_private_listed (all_calls w evs)"
proof (induction evs arbitrary: w)
  case Nil
  then show ?case by (simp add: no_private_listed_def)
next
  case (Cons e es)
  from step_private [OF Cons.prems, of e]
  show ?case
    using Cons.IH [of "fst (step e w)"]
    by (simp add: no_private_listed_append del: step.simps)
qed

lemma private_register_world:
  "peerRecord (srv (run init (second_register @ private_register))) =
     [(''8.8.8.8'', \<lparr>geo = \<lparr>latitude = 10, longitude = 20\<rparr>, firstSeen = 1000, lastSeen = 1000\<rparr>),
      (''10.0.0.5'', \<lparr>geo = \<lparr>latitude = 0, longitude = 0\<rparr>, firstSeen = 6000, lastSeen = 6000\<rparr>)] \<and>
   all_calls (run init second_register) private_register =
     [Write (buildResponse SUCCESS_REGISTER
        (Some (''10.0.0.5'', [\<lparr>latitude = 10, longitude = 20, ip = ''8.8.8.8''\<rparr>]))), End]"
proof -
  let ?p = "[(''8.8.8.8'', \<lparr>geo = \<lparr>latitude = 10, longitude = 20\<rparr>,
                           firstSeen = 1000, lastSeen = 1000\<rparr>)]"
  let ?s1 = "\<lparr>s_ip = ''8.8.8.8'', s_now = 1000, dataBuffer = register_msg, handlers = [Finished]\<rparr>"
  let ?s2 = "\<lparr>s_ip = ''8.8.8.8'', s_now = 5000, dataBuffer = register_msg, handlers = [AwaitDelay]\<rparr>"
  let ?c = "[''8.8.8.8'' \<mapsto> [1000::int, 5000], ''10.0.0.5'' \<mapsto> [6000]]"
  let ?W5 = "\<lparr>srv = \<lparr>peerRecord = ?p, clientRecord = [''8.8.8.8'' \<mapsto> [1000::int, 5000]],
                       banList = Map.empty, globalRequestCount = 2\<rparr>,
              sessions = [?s1, ?s2]\<rparr>"
  let ?W6 = "\<lparr>srv = \<lparr>peerRecord = ?p, clientRecord = ?c, banList = Map.empty,
                       globalRequestCount = 3\<rparr>,
              sessions = [?s1, ?s2, \<lparr>s_ip = ''10.0.0.5'', s_now = 6000, dataBuffer = [],
                                     handlers = []\<rparr>]\<rparr>"
  let ?W7 = "\<lparr>srv = \<lparr>peerRecord = ?p, clientRecord = ?c, banList = Map.empty,
                       globalRequestCount = 3\<rparr>,
              sessions = [?s1, ?s2, \<lparr>s_ip = ''10.0.0.5'', s_now = 6000,
                                     dataBuffer = register_msg, handlers = [AwaitDelay]\<rparr>]\<rparr>"
  let ?W8 = "\<lparr>srv = \<lparr>peerRecord = ?p, clientRecord = ?c, banList = Map.empty,
                       globalRequestCount = 3\<rparr>,
              sessions = [?s1, ?s2, \<lparr>s_ip = ''10.0.0.5'', s_now = 6000,
                                     dataBuffer = register_msg, handlers = [AwaitGeo]\<rparr>]\<rparr>"
  let ?p' = "[(''8.8.8.8'', \<lparr>geo = \<lparr>latitude = 10, longitude = 20\<rparr>,
                           firstSeen = 1000, lastSeen = 1000\<rparr>),
              (''10.0.0.5'', \<lparr>geo = \<lparr>latitude = 0, longitude = 0\<rparr>,
                           firstSeen = 6000, lastSeen = 6000\<rparr>)]"
  let ?W9 = "\<lparr>srv = \<lparr>peerRecord = ?p', clientRecord = ?c, banList = Map.empty,
                       globalRequestCount = 3\<rparr>,
              sessions = [?s1, ?s2, \<lparr>s_ip = ''10.0.0.5'', s_now = 6000,
                                     dataBuffer = register_msg, handlers = [Finished]\<rparr>]\<rparr>"
  let ?out = "[Write (buildResponse SUCCESS_REGISTER
        (Some (''10.0.0.5'', [\<lparr>latitude = 10, longitude = 20, ip = ''8.8.8.8''\<rparr>]))), End]"
  have 5: "run init second_register = ?W5"
    by (rule second_register_world)
  have 6: "step (Connection (Some ''10.0.0.5'') 6000) ?W5 = (?W6, [])"
    by (simp add: connection_def Let_def RATE_LIMIT_def WINDOW_MS_def MAX_CONN_PER_SECOND_def)
  have 7: "step (SockData 2 register_msg) ?W6 = (?W7, [])"
    by (simp add: on_data_def register_msg_def)
  have 8: "step (DelayElapsed 2 0 (Action ''register'')) ?W7 = (?W8, [])"
    by (simp add: awaits_def delay_elapsed_def)
  have 9: "step (GeoReturned 2 0 Threw) ?W8 = (?W9, ?out)"
    by (simp add: awaits_def geo_returned_def register_with_def getGeo_def isPrivateIP_def
        startsWith_def sendPeers_def entries_def sort_cmp_def RESPONSE_PEER_LIMIT_def)
  show ?thesis
    unfolding private_register_def
    by (simp only: run_append run.simps all_calls.simps 5 6 7 8 9 fst_conv snd_conv append_Nil
        append_Nil2 world.simps server.simps)
qed

text \<open>
  Claim C9.  After every sequence of events from the initial state, every record of a
  private-range or loopback address (an address that \<open>isPrivateIP\<close> accepts: the
  prefixes \<open>127.\<close>, \<open>192.168.\<close>, \<open>10.\<close>, \<open>172.\<close> and the address \<open>::1\<close>) holds the
  dummy coordinate, latitude 0 and longitude 0; and no response written during the
  sequence lists such an address among its peers, the response to its own register
  included.
\<close>

theorem private_peers_never_listed:
  "(\<forall>k v. (k, v) \<in> set (peerRecord (srv (run init evs))) \<and> isPrivateIP k \<longrightarrow>
      geo v = \<lparr>latitude = 0, longitude = 0\<rparr>) \<and>
   (\<forall>r ps p. Write r \<in> set (all_calls init evs) \<and> peers r = Some ps \<and> p \<in> set ps \<longrightarrow>
      \<not> isPrivateIP (ip p))"
proof -
  have "private_dummy (peerRecord (srv init))"
    by (simp add: init_def private_dummy_def)
  from run_private [OF this, of evs] show ?thesis
    by (simp add: private_dummy_def no_private_listed_def) blast
qed

theorem private_peers_never_listed_witness:
  "(''10.0.0.5'', \<lparr>geo = \<lparr>latitude = 0, longitude = 0\<rparr>, firstSeen = 6000, lastSeen = 6000\<rparr>)
     \<in> set (peerRecord (srv (run init (second_register @ private_register)))) \<and>
   isPrivateIP ''10.0.0.5'' \<and>
   Write (buildResponse SUCCESS_REGISTER
        (Some (''10.0.0.5'', [\<lparr>latitude = 10, longitude = 20, ip = ''8.8.8.8''\<rparr>])))
     \<in> set (all_calls init (second_register @ private_register)) \<and>
   \<not> isPrivateIP (ip \<lparr>latitude = 10, longitude = 20, ip = ''8.8.8.8''\<rparr>)"
proof -
  let ?r = "buildResponse SUCCESS_REGISTER
        (Some (''10.0.0.5'', [\<lparr>latitude = 10, longitude = 20, ip = ''8.8.8.8''\<rparr>]))"
  have 1: "(''10.0.0.5'', \<lparr>geo = \<lparr>latitude = 0, longitude = 0\<rparr>, firstSeen = 6000, lastSeen = 6000\<rparr>)
     \<in> set (peerRecord (srv (run init (second_register @ private_register))))"
    using private_register_world by simp
  have 2: "isPrivateIP ''10.0.0.5''"
    by (simp add: isPrivateIP_def startsWith_def)
  have 3: "Write ?r \<in> set (all_calls init (second_register @ private_register))"
    using private_register_world by (simp add: all_calls_append)
  have 4: "peers ?r = Some [\<lparr>latitude = 10, longitude = 20, ip = ''8.8.8.8''\<rparr>]"
    by (simp add: buildResponse_def)
  have 5: "\<lparr>latitude = 10, longitude = 20, ip = ''8.8.8.8''\<rparr>
             \<in> set [\<lparr>latitude = 10::real, longitude = 20, ip = ''8.8.8.8''\<rparr>]"
    by simp
  show ?thesis
    using private_peers_never_listed [of "second_register @ private_register"] 1 2 3 4 5
    by blast
qed


subsection \<open>The stale-peer sweep\<close>

lemma sweep_loop_filter:
  "sweep_loop now es pr =
     filter (\<lambda>(k, v). \<not> (\<exists>info. (k, info) \<in> set es \<and> now - lastSeen info > PEER_TIMEOUT_MS)) pr"
proof (induction es arbitrary: pr)
  case Nil
  then show ?case by simp
next
  case (Cons e es)
  obtain k info where e: "e = (k, info)" by (cases e)
  show ?case
  proof (cases "now - lastSeen info > PEER_TIMEOUT_MS")
    case True
    then show ?thesis
      unfolding e by (auto simp: Cons.IH AList.delete_eq intro!: filter_cong)
  next
    case False
    then show ?thesis
      unfolding e by (auto simp: Cons.IH intro!: filter_cong)
  qed
qed

lemma sweep_exact:
  assumes "distinct (map fst pr)"
  shows "sweep_loop now pr pr = filter (\<lambda>(k, v). \<not> (now - lastSeen v > PEER_TIMEOUT_MS)) pr"
proof -
  have "(\<exists>info. (k, info) \<in> set pr \<and> now - lastSeen info > PEER_TIMEOUT_MS) \<longleftrightarrow>
        now - lastSeen v > PEER_TIMEOUT_MS" if "(k, v) \<in> set pr" for k v
    using that assms by (auto dest: eq_key_imp_eq_value)
  then show ?thesis
    unfolding sweep_loop_filter by (auto intro!: filter_cong)
qed

lemma distinct_sweep_loop:
  "distinct (map fst pr) \<Longrightarrow> distinct (map fst (sweep_loop now es pr))"
  by (simp add: sweep_loop_filter distinct_map_filter)

lemma register_with_distinct:
  "distinct (map fst (peerRecord s)) \<Longrightarrow>
   distinct (map fst (peerRecord (fst (register_with a now g s))))"
  by (simp add: register_with_def Let_def distinct_update split: option.splits)

lemma delay_elapsed_distinct:
  "distinct (map fst (peerRecord s)) \<Longrightarrow>
   distinct (map fst (peerRecord (fst (delay_elapsed p a now s))))"
  by (simp add: delay_elapsed_def register_with_distinct distinct_update distinct_delete
      split: parsed.splits option.splits)

lemma step_distinct:
  assumes "distinct (map fst (peerRecord (srv w)))"
  shows "distinct (map fst (peerRecord (srv (fst (step e w)))))"
proof (cases e)
  case (DelayElapsed n h p)
  then show ?thesis
    using assms srv_step_cases(6) [of n h p w]
    by (auto simp del: step.simps simp add: delay_elapsed_distinct)
next
  case (GeoReturned n h r)
  then show ?thesis
    using assms srv_step_cases(7) [of n h r w]
    by (auto simp del: step.simps simp add: geo_returned_def register_with_distinct)
qed (simp_all only: srv_step_cases connection_peerRecord,
     simp_all add: assms sweep_def distinct_sweep_loop)

lemma run_distinct:
  "distinct (map fst (peerRecord (srv w))) \<Longrightarrow> distinct (map fst (peerRecord (srv (run w evs))))"
  by (induction evs arbitrary: w) (simp_all add: step_distinct del: step.simps)

lemma init_distinct: "distinct (map fst (peerRecord (srv init)))"
  by (simp add: init_def)

lemma not_listed_append: "not_listed k (xs @ ys) \<longleftrightarrow> not_listed k xs \<and> not_listed k ys"
  unfolding not_listed_def set_append Un_iff by blast

lemma register_with_absent:
  assumes "k \<notin> fst ` set (peerRecord s)" and "a \<noteq> k"
  shows "k \<notin> fst ` set (peerRecord (fst (register_with a now g s))) \<and>
         not_listed k (snd (register_with a now g s))"
proof (cases g)
  case None
  then show ?thesis using assms
    by (simp add: register_with_def not_listed_def buildResponse_def)
next
  case (Some gv)
  let ?pr = "AList.update a \<lparr>geo = gv, firstSeen = now, lastSeen = now\<rparr> (peerRecord s)"
  have k: "k \<notin> fst ` set ?pr"
    using assms by (simp add: dom_update)
  then show ?thesis
    using Some sendPeers_keys [of _ gv ?pr]
    by (auto simp: register_with_def Let_def not_listed_def buildResponse_def)
qed

lemma delay_elapsed_absent:
  assumes "k \<notin> fst ` set (peerRecord s)" and "\<not> (a = k \<and> p = Action ''register'')"
  shows "k \<notin> fst ` set (peerRecord (fst (delay_elapsed p a now s))) \<and>
         not_listed k (fst (snd (delay_elapsed p a now s)))"
proof (cases "p = Action ''register''")
  case True
  then have ak: "a \<noteq> k" using assms(2) by simp
  show ?thesis
    using True assms(1) register_with_absent [OF assms(1) ak]
    by (simp add: delay_elapsed_def not_listed_def split: option.splits)
next
  case False
  have d: "k \<notin> fst ` set (AList.delete a (peerRecord s))"
    using assms(1) set_delete_subset [of a "peerRecord s"] by auto
  have m: "a = k \<Longrightarrow> map_of (peerRecord s) a = None"
    using assms(1) by (simp add: map_of_eq_None_iff)
  show ?thesis
    using False assms(1) d m
    by (auto simp: delay_elapsed_def not_listed_def buildResponse_def dom_update
        split: parsed.splits option.splits)
qed

lemma step_absent:
  assumes "k \<notin> fst ` set (peerRecord (srv w))" and "\<not> registers k w e"
  shows "k \<notin> fst ` set (peerRecord (srv (fst (step e w)))) \<and> not_listed k (snd (step e w))"
proof (cases e)
  case (Connection ra now)
  then show ?thesis
    using assms(1) step_Connection_calls [of ra now w]
    by (auto simp del: step.simps simp add: srv_step_cases connection_peerRecord not_listed_def)
next
  case ResetCounter
  then show ?thesis using assms(1) by (simp add: not_listed_def)
next
  case (Sweep t)
  then show ?thesis
    using assms(1) set_sweep_loop_subset [of t "peerRecord (srv w)" "peerRecord (srv w)"]
    by (auto simp: not_listed_def sweep_def)
next
  case (SockTimeout n)
  then show ?thesis using assms(1)
    by (simp add: not_listed_def on_timeout_def buildResponse_def)
next
  case (SockData n chunk)
  then show ?thesis using assms(1)
    by (simp add: not_listed_def on_data_def Let_def buildResponse_def)
next
  case (DelayElapsed n h p)
  show ?thesis
  proof (cases "awaits w n h AwaitDelay")
    case True
    then have "\<not> (s_ip (sessions w ! n) = k \<and> p = Action ''register'')"
      using assms(2) DelayElapsed by (simp add: awaits_def)
    from delay_elapsed_absent [OF assms(1) this] show ?thesis
      using True DelayElapsed by (simp add: step_DelayElapsed del: step.simps)
  next
    case False
    then show ?thesis using assms(1) DelayElapsed
      by (simp add: step_DelayElapsed not_listed_def del: step.simps)
  qed
next
  case (GeoReturned n h r)
  show ?thesis
  proof (cases "awaits w n h AwaitGeo")
    case True
    then have "s_ip (sessions w ! n) \<noteq> k"
      using assms(2) GeoReturned by (simp add: awaits_def)
    from register_with_absent [OF assms(1) this] show ?thesis
      using True GeoReturned by (simp add: step_GeoReturned geo_returned_def del: step.simps)
  next
    case False
    then show ?thesis using assms(1) GeoReturned
      by (simp add: step_GeoReturned not_listed_def del: step.simps)
  qed
qed

lemma run_absent:
  "k \<notin> fst ` set (peerRecord (srv w)) \<Longrightarrow> no_register k w evs \<Longrightarrow>
   k \<notin> fst ` set (peerRecord (srv (run w evs))) \<and> not_listed k (all_calls w evs)"
proof (induction evs arbitrary: w)
  case Nil
  then show ?case by (simp add: not_listed_def)
next
  case (Cons e es)
  have ne: "\<not> registers k w e" and nr: "no_register k (fst (step e w)) es"
    using Cons.prems(2) by simp_all
  from step_absent [OF Cons.prems(1) ne]
  show ?case
    using Cons.IH [OF _ nr]
    by (simp add: not_listed_append del: step.simps)
qed

lemma late_register_world:
  "peerRecord (srv (run init second_register)) =
     [(''8.8.8.8'', \<lparr>geo = \<lparr>latitude = 10, longitude = 20\<rparr>, firstSeen = 1000, lastSeen = 1000\<rparr>)] \<and>
   no_register ''8.8.8.8'' (run init (second_register @ [Sweep 400000])) late_register \<and>
   peerRecord (srv (run init (second_register @ [Sweep 400000]))) = [] \<and>
   all_calls (run init (second_register @ [Sweep 400000])) late_register =
     [Write (buildResponse SUCCESS_REGISTER
        (Some (''9.9.9.9'', [\<lparr>latitude = 30, longitude = 40, ip = ''9.9.9.9''\<rparr>]))), End]"
proof -
  let ?p = "[(''8.8.8.8'', \<lparr>geo = \<lparr>latitude = 10, longitude = 20\<rparr>,
                           firstSeen = 1000, lastSeen = 1000\<rparr>)]"
  let ?s1 = "\<lparr>s_ip = ''8.8.8.8'', s_now = 1000, dataBuffer = register_msg, handlers = [Finished]\<rparr>"
  let ?s2 = "\<lparr>s_ip = ''8.8.8.8'', s_now = 5000, dataBuffer = register_msg, handlers = [AwaitDelay]\<rparr>"
  let ?ca = "[''8.8.8.8'' \<mapsto> [1000::int, 5000]]"
  let ?c = "[''8.8.8.8'' \<mapsto> [1000::int, 5000], ''9.9.9.9'' \<mapsto> [400001]]"
  let ?Va = "\<lparr>srv = \<lparr>peerRecord = ?p, clientRecord = ?ca, banList = Map.empty,
                       globalRequestCount = 2\<rparr>,
              sessions = [?s1, ?s2]\<rparr>"
  let ?V1 = "\<lparr>srv = \<lparr>peerRecord = [], clientRecord = ?ca, banList = Map.empty,
                       globalRequestCount = 2\<rparr>,
              sessions = [?s1, ?s2]\<rparr>"
  let ?V2 = "\<lparr>srv = \<lparr>peerRecord = [], clientRecord = ?c, banList = Map.empty,
                       globalRequestCount = 3\<rparr>,
              sessions = [?s1, ?s2, \<lparr>s_ip = ''9.9.9.9'', s_now = 400001, dataBuffer = [],
                                     handlers = []\<rparr>]\<rparr>"
  let ?V3 = "\<lparr>srv = \<lparr>peerRecord = [], clientRecord = ?c, banList = Map.empty,
                       globalRequestCount = 3\<rparr>,
              sessions = [?s1, ?s2, \<lparr>s_ip = ''9.9.9.9'', s_now = 400001,
                                     dataBuffer = register_msg, handlers = [AwaitDelay]\<rparr>]\<rparr>"
  let ?V4 = "\<lparr>srv = \<lparr>peerRecord = [], clientRecord = ?c, banList = Map.empty,
                       globalRequestCount = 3\<rparr>,
              sessions = [?s1, ?s2, \<lparr>s_ip = ''9.9.9.9'', s_now = 400001,
                                     dataBuffer = register_msg, handlers = [AwaitGeo]\<rparr>]\<rparr>"
  let ?p' = "[(''9.9.9.9'', \<lparr>geo = \<lparr>latitude = 30, longitude = 40\<rparr>,
                           firstSeen = 400001, lastSeen = 400001\<rparr>)]"
  let ?V5 = "\<lparr>srv = \<lparr>peerRecord = ?p', clientRecord = ?c, banList = Map.empty,
                       globalRequestCount = 3\<rparr>,
              sessions = [?s1, ?s2, \<lparr>s_ip = ''9.9.9.9'', s_now = 400001,
                                     dataBuffer = register_msg, handlers = [Finished]\<rparr>]\<rparr>"
  let ?out = "[Write (buildResponse SUCCESS_REGISTER
        (Some (''9.9.9.9'', [\<lparr>latitude = 30, longitude = 40, ip = ''9.9.9.9''\<rparr>]))), End]"
  have 0: "run init second_register = ?Va"
    by (rule second_register_world)
  have 1: "step (Sweep 400000) ?Va = (?V1, [])"
    by (simp add: sweep_def PEER_TIMEOUT_MS_def AList.delete_eq)
  have 2: "step (Connection (Some ''9.9.9.9'') 400001) ?V1 = (?V2, [])"
    by (simp add: connection_def Let_def RATE_LIMIT_def WINDOW_MS_def MAX_CONN_PER_SECOND_def)
  have 3: "step (SockData 2 register_msg) ?V2 = (?V3, [])"
    by (simp add: on_data_def register_msg_def)
  have 4: "step (DelayElapsed 2 0 (Action ''register'')) ?V3 = (?V4, [])"
    by (simp add: awaits_def delay_elapsed_def)
  have 5: "step (GeoReturned 2 0 (ResData (Some 30) (Some 40))) ?V4 = (?V5, ?out)"
    by (simp add: awaits_def geo_returned_def register_with_def getGeo_def isPrivateIP_def
        startsWith_def sendPeers_def entries_def sort_cmp_def RESPONSE_PEER_LIMIT_def)
  have r2: "\<not> registers ''8.8.8.8'' ?V1 (Connection (Some ''9.9.9.9'') 400001)"
    and r3: "\<not> registers ''8.8.8.8'' ?V2 (SockData 2 register_msg)"
    and r4: "\<not> registers ''8.8.8.8'' ?V3 (DelayElapsed 2 0 (Action ''register''))"
    and r5: "\<not> registers ''8.8.8.8'' ?V4 (GeoReturned 2 0 (ResData (Some 30) (Some 40)))"
    by simp_all
  show ?thesis
    unfolding late_register_def
    by (simp only: run_append run.simps all_calls.simps no_register.simps 0 1 2 3 4 5
        r2 r3 r4 r5 fst_conv snd_conv append_Nil append_Nil2 world.simps server.simps
        simp_thms)
qed

text \<open>
  Claim C7.  \<open>lastSeen\<close> is the time at which the connection of the last register or
  heartbeat of the address was accepted.  In any reachable state, a run of the sweep at
  time \<open>t\<close> keeps exactly the records with \<open>\<not> t - lastSeen > PEER_TIMEOUT_MS\<close>, in
  their order.  So a record of \<open>k\<close> whose \<open>lastSeen\<close> is more than \<open>PEER_TIMEOUT_MS\<close>
  before \<open>t\<close> is gone after the sweep; and as long as no register of \<open>k\<close> occurs
  afterwards, \<open>k\<close> stays out of the registry and no response written lists \<open>k\<close> among
  its peers.
\<close>

theorem stale_peer_swept:
  assumes "(k, info) \<in> set (peerRecord (srv (run init pre)))"
    and "t - lastSeen info > PEER_TIMEOUT_MS"
    and "no_register k (run init (pre @ [Sweep t])) evs"
  shows "peerRecord (srv (run init (pre @ [Sweep t]))) =
           filter (\<lambda>(a, v). \<not> (t - lastSeen v > PEER_TIMEOUT_MS)) (peerRecord (srv (run init pre))) \<and>
         k \<notin> fst ` set (peerRecord (srv (run init (pre @ [Sweep t])))) \<and>
         k \<notin> fst ` set (peerRecord (srv (run init (pre @ Sweep t # evs)))) \<and>
         (\<forall>r ps p. Write r \<in> set (all_calls (run init (pre @ [Sweep t])) evs) \<and>
                   peers r = Some ps \<and> p \<in> set ps \<longrightarrow> ip p \<noteq> k)"
proof -
  let ?pr = "peerRecord (srv (run init pre))"
  have d: "distinct (map fst ?pr)"
    by (rule run_distinct [OF init_distinct])
  have sw: "peerRecord (srv (run init (pre @ [Sweep t]))) =
           filter (\<lambda>(a, v). \<not> (t - lastSeen v > PEER_TIMEOUT_MS)) ?pr"
    using sweep_exact [OF d, of t] by (simp add: run_append sweep_def)
  have gone: "k \<notin> fst ` set (peerRecord (srv (run init (pre @ [Sweep t]))))"
  proof
    assume "k \<in> fst ` set (peerRecord (srv (run init (pre @ [Sweep t]))))"
    then obtain v where v: "(k, v) \<in> set ?pr" "\<not> (t - lastSeen v > PEER_TIMEOUT_MS)"
      unfolding sw by auto
    then have "v = info" using d assms(1) by (auto dest: eq_key_imp_eq_value)
    then show False using v(2) assms(2) by simp
  qed
  have r: "run init (pre @ Sweep t # evs) = run (run init (pre @ [Sweep t])) evs"
    using run_append [of init "pre @ [Sweep t]" evs] by simp
  from run_absent [OF gone assms(3)] show ?thesis
    using sw gone unfolding r by (simp add: not_listed_def)
qed

theorem stale_peer_swept_witness:
  "(''8.8.8.8'', \<lparr>geo = \<lparr>latitude = 10, longitude = 20\<rparr>, firstSeen = 1000, lastSeen = 1000\<rparr>)
     \<in> set (peerRecord (srv (run init second_register))) \<and>
   400000 - lastSeen \<lparr>geo = \<lparr>latitude = 10, longitude = 20\<rparr>, firstSeen = 1000, lastSeen = 1000\<rparr>
     > PEER_TIMEOUT_MS \<and>
   no_register ''8.8.8.8'' (run init (second_register @ [Sweep 400000])) late_register \<and>
   ''8.8.8.8'' \<notin> fst ` set (peerRecord (srv (run init (second_register @ Sweep 400000 # late_register)))) \<and>
   Write (buildResponse SUCCESS_REGISTER
        (Some (''9.9.9.9'', [\<lparr>latitude = 30, longitude = 40, ip = ''9.9.9.9''\<rparr>])))
     \<in> set (all_calls (run init (second_register @ [Sweep 400000])) late_register) \<and>
   ip \<lparr>latitude = 30, longitude = 40, ip = ''9.9.9.9''\<rparr> \<noteq> ''8.8.8.8''"
proof -
  let ?info = "\<lparr>geo = \<lparr>latitude = 10, longitude = 20\<rparr>, firstSeen = 1000, lastSeen = 1000\<rparr>"
  let ?r = "buildResponse SUCCESS_REGISTER
        (Some (''9.9.9.9'', [\<lparr>latitude = 30, longitude = 40, ip = ''9.9.9.9''\<rparr>]))"
  have 1: "(''8.8.8.8'', ?info) \<in> set (peerRecord (srv (run init second_register)))"
    using late_register_world by simp
  have 2: "400000 - lastSeen ?info > PEER_TIMEOUT_MS"
    by (simp add: PEER_TIMEOUT_MS_def)
  have 3: "no_register ''8.8.8.8'' (run init (second_register @ [Sweep 400000])) late_register"
    using late_register_world by blast
  have 4: "Write ?r \<in> set (all_calls (run init (second_register @ [Sweep 400000])) late_register)"
    using late_register_world by simp
  have 5: "peers ?r = Some [\<lparr>latitude = 30, longitude = 40, ip = ''9.9.9.9''\<rparr>]"
    by (simp add: buildResponse_def)
  have 6: "\<lparr>latitude = 30, longitude = 40, ip = ''9.9.9.9''\<rparr>
             \<in> set [\<lparr>latitude = 30::real, longitude = 40, ip = ''9.9.9.9''\<rparr>]"
    by simp
  show ?thesis
    using stale_peer_swept [OF 1 2 3] 1 2 3 4 5 6 by blast
qed


end
